theory Spec2Isabelle
  imports Main
begin

section \<open>JavaScript values\<close>

text \<open>
  A JavaScript string is a sequence of UTF-16 code units. A number is a double: a finite
  value \<open>m * 2 ^ e\<close>, negative zero, an infinity (\<open>True\<close> for the negative one) or \<open>NaN\<close>.
  \<open>json\<close> holds the values that reach the client's listeners: what \<open>JSON.parse\<close> returns, and
  the \<open>Blob\<close> of a binary frame. An object is the list of its properties in the order of
  the text it was decoded from. A value of type \<open>json option\<close> may be \<open>undefined\<close> (\<open>None\<close>).
\<close>

type_synonym jsstring = "nat list"

datatype jsnumber = Double int int | NegZero | Infinity bool | NaN

datatype json =
    JNull
  | JBool bool
  | JNum jsnumber
  | JStr jsstring
  | JArr "json list"
  | JObj "(jsstring \<times> json) list"
  | JBlob "nat list"

text \<open>A string literal of the source, all of whose characters are ASCII.\<close>

definition ascii :: "string \<Rightarrow> jsstring" where
  "ascii s = map of_char s"

text \<open>
  What a message event carries as \<open>event.data\<close>: the string of a text frame, or a \<open>Blob\<close>
  with the bytes of a binary frame (\<open>binaryType\<close> is left at its default).
\<close>

datatype frame = TextFrame jsstring | BinaryFrame "nat list"

definition event_data :: "frame \<Rightarrow> json" where
  "event_data f = (case f of TextFrame s \<Rightarrow> JStr s | BinaryFrame b \<Rightarrow> JBlob b)"

datatype error = InvalidStateError | SecurityError | SyntaxError | TypeError | RangeError

text \<open>
  The conversions of the language that the client calls are taken from the language as
  they are: \<open>ToString\<close>, which a template literal applies to the value it interpolates and
  which throws on some objects, and \<open>JSON.stringify\<close>.
\<close>

record builtins =
  ToString :: "json option \<Rightarrow> error + jsstring"
  JSON_stringify :: "json \<Rightarrow> jsstring"

text \<open>The truth value JavaScript gives a value in a condition.\<close>

definition truthy :: "json option \<Rightarrow> bool" where
  "truthy v =
     (case v of
        None \<Rightarrow> False
      | Some JNull \<Rightarrow> False
      | Some (JBool b) \<Rightarrow> b
      | Some (JNum n) \<Rightarrow> (case n of Double m e \<Rightarrow> m \<noteq> 0 | NegZero \<Rightarrow> False
                                  | Infinity neg \<Rightarrow> True | NaN \<Rightarrow> False)
      | Some (JStr s) \<Rightarrow> s \<noteq> []
      | Some (JArr xs) \<Rightarrow> True
      | Some (JObj kvs) \<Rightarrow> True
      | Some (JBlob b) \<Rightarrow> True)"

text \<open>
  \<open>data.k\<close> for a value \<open>data\<close> other than \<open>null\<close> and for the names the client reads
  (\<open>type\<close>, \<open>status\<close>, \<open>message\<close>, \<open>content\<close>, \<open>filename\<close>): an object has the property or
  not, and where the text repeated a key the last value counts, as \<open>JSON.parse\<close> has it;
  strings, numbers, booleans and arrays have none of these properties; the \<open>Blob\<close> of
  a received frame has the \<open>type\<close> the empty string and none of the others. On \<open>null\<close> the
  access throws \<open>TypeError\<close>, which the callers of \<open>property\<close> check first.
\<close>

definition property :: "json \<Rightarrow> jsstring \<Rightarrow> json option" where
  "property data k =
     (case data of
        JObj kvs \<Rightarrow> map_of (rev kvs) k
      | JBlob b \<Rightarrow> (if k = ascii ''type'' then Some (JStr []) else None)
      | _ \<Rightarrow> None)"

section \<open>The browser objects the client acts on\<close>

text \<open>
  \<open>WebSocketService\<close> of \<open>services/WebSocketService\<close> owns one browser \<open>WebSocket\<close> at a
  time, but every socket it ever created keeps the event handlers \<open>connect\<close> attached to it.
  The model therefore keeps all sockets created so far (a list of ready states indexed by
  creation order), the number of pending \<open>setTimeout\<close> callbacks, and a log of the calls the
  service makes on the browser.
\<close>

datatype readyState = CONNECTING | OPEN | CLOSING | CLOSED

datatype status = connected | disconnected

datatype effect =
    NewWebSocket              \<comment> \<open>\<open>new WebSocket('ws://localhost:8765')\<close> is called\<close>
  | WsClose nat               \<comment> \<open>\<open>close()\<close> is called on the socket with this index\<close>
  | WsSend nat jsstring      \<comment> \<open>a frame is transmitted on the open socket with this index\<close>
  | SetTimeout nat            \<comment> \<open>\<open>setTimeout(() => this.connect(), delay)\<close>\<close>
  | TimerFired                \<comment> \<open>a pending timer runs its callback \<open>this.connect()\<close>\<close>

text \<open>
  The listeners are closures over state that the service does not own (React state of the
  view). A listener is modelled as a function on that outside state \<open>'v\<close>, paired with a
  number standing for the identity of the closure in the JavaScript \<open>Set\<close>. A listener may
  throw: it returns the exception, if any, beside the state it leaves behind.
\<close>

type_synonym 'v messageHandler = "json \<Rightarrow> 'v \<Rightarrow> error option \<times> 'v"
type_synonym 'v statusCallback = "status \<Rightarrow> 'v \<Rightarrow> error option \<times> 'v"

record 'v WebSocketService =
  ws :: "nat option"
  reconnectAttempts :: nat
  messageQueue :: "jsstring list"
  isConnecting :: bool
  messageHandlers :: "(nat \<times> 'v messageHandler) list"
  connectionStatusCallbacks :: "(nat \<times> 'v statusCallback) list"
  sockets :: "readyState list"
  timers :: nat
  wsBlocked :: bool
  log :: "effect list"
  view :: 'v

definition maxReconnectAttempts :: nat where
  "maxReconnectAttempts = 5"

definition reconnectTimeout :: nat where
  "reconnectTimeout = 3000"

definition emit :: "effect \<Rightarrow> 'v WebSocketService \<Rightarrow> 'v WebSocketService" where
  "emit e s = s\<lparr>log := log s @ [e]\<rparr>"

text \<open>\<open>this.ws?.readyState\<close>: \<open>None\<close> is JavaScript's \<open>undefined\<close> (no socket).\<close>

definition ws_readyState :: "'v WebSocketService \<Rightarrow> readyState option" where
  "ws_readyState s =
     (case ws s of
        None \<Rightarrow> None
      | Some i \<Rightarrow> if i < length (sockets s) then Some (sockets s ! i) else None)"

definition isOpen :: "'v WebSocketService \<Rightarrow> bool" where
  "isOpen s = (ws_readyState s = Some OPEN)"

text \<open>
  The browser's \<open>WebSocket.close()\<close>: a connecting or open socket starts closing (its close
  event comes later, as an event of its own); on a closing or closed socket nothing happens.
\<close>

definition browser_close :: "nat \<Rightarrow> 'v WebSocketService \<Rightarrow> 'v WebSocketService" where
  "browser_close i s =
     (let s1 = emit (WsClose i) s in
      if i < length (sockets s1) \<and> (sockets s1 ! i = CONNECTING \<or> sockets s1 ! i = OPEN)
      then s1\<lparr>sockets := (sockets s1)[i := CLOSING]\<rparr>
      else s1)"

text \<open>
  The browser's \<open>WebSocket.send(data)\<close>: throws \<open>InvalidStateError\<close> on a connecting socket,
  transmits on an open one, and discards the data on a closing or closed one.
  A call that can throw returns the exception, if any, beside the state it leaves behind:
  an exception that nobody catches ends the running event handler, not the program.
\<close>

definition browser_send ::
  "nat \<Rightarrow> jsstring \<Rightarrow> 'v WebSocketService \<Rightarrow> error option \<times> 'v WebSocketService" where
  "browser_send i d s =
     (if i < length (sockets s) then
        (case sockets s ! i of
           CONNECTING \<Rightarrow> (Some InvalidStateError, s)
         | OPEN \<Rightarrow> (None, emit (WsSend i d) s)
         | CLOSING \<Rightarrow> (None, s)
         | CLOSED \<Rightarrow> (None, s))
      else (Some TypeError, s))"

section \<open>WebSocketService\<close>

text \<open>
  \<open>Set.forEach\<close> calls the listeners in the order they were added; an exception thrown
  by one of them ends the loop and leaves \<open>forEach\<close>.
\<close>

fun forEach_callback :: "status \<Rightarrow> (nat \<times> 'v statusCallback) list \<Rightarrow> 'v \<Rightarrow> error option \<times> 'v" where
  "forEach_callback st [] v = (None, v)"
| "forEach_callback st (c # cs) v =
     (case snd c st v of
        (Some e, v') \<Rightarrow> (Some e, v')
      | (None, v') \<Rightarrow> forEach_callback st cs v')"

definition notifyConnectionStatus ::
  "status \<Rightarrow> 'v WebSocketService \<Rightarrow> error option \<times> 'v WebSocketService" where
  "notifyConnectionStatus st s =
     (case forEach_callback st (connectionStatusCallbacks s) (view s) of
        (r, v') \<Rightarrow> (r, s\<lparr>view := v'\<rparr>))"

definition handleReconnect :: "'v WebSocketService \<Rightarrow> 'v WebSocketService" where
  "handleReconnect s =
     (if reconnectAttempts s < maxReconnectAttempts then
        (emit (SetTimeout reconnectTimeout) (s\<lparr>reconnectAttempts := reconnectAttempts s + 1\<rparr>))
          \<lparr>timers := timers s + 1\<rparr>
      else s)"

text \<open>
  \<open>connect\<close>. The constructor \<open>new WebSocket(url)\<close> throws when the page may not open the
  connection (\<open>wsBlocked\<close>); the \<open>catch\<close> branch then runs, and an exception a status
  listener throws there leaves \<open>connect\<close> before \<open>handleReconnect\<close> is called. The four
  event handlers that \<open>connect\<close> attaches to the new socket are \<open>onopen\<close>, \<open>onmessage\<close>,
  \<open>onclose\<close> and \<open>onerror\<close> below; they refer to \<open>this\<close>, never to the socket they are
  attached to.
\<close>

definition connect :: "'v WebSocketService \<Rightarrow> error option \<times> 'v WebSocketService" where
  "connect s =
     (if isConnecting s then (None, s)
      else
        let s1 = s\<lparr>isConnecting := True\<rparr>;
            s2 = (case ws s1 of
                    Some i \<Rightarrow> (browser_close i s1)\<lparr>ws := None\<rparr>
                  | None \<Rightarrow> s1);
            s3 = emit NewWebSocket s2
        in if wsBlocked s3
           then (case notifyConnectionStatus disconnected (s3\<lparr>isConnecting := False\<rparr>) of
                   (Some e, s4) \<Rightarrow> (Some e, s4)
                 | (None, s4) \<Rightarrow> (None, handleReconnect s4))
           else (None, s3\<lparr>sockets := sockets s3 @ [CONNECTING], ws := Some (length (sockets s3))\<rparr>))"

definition send :: "jsstring \<Rightarrow> 'v WebSocketService \<Rightarrow> error option \<times> 'v WebSocketService" where
  "send d s =
     (if ws_readyState s = Some OPEN then
        (case ws s of
           Some i \<Rightarrow> browser_send i d s
         | None \<Rightarrow> (Some TypeError, s))
      else
        let s1 = s\<lparr>messageQueue := messageQueue s @ [d]\<rparr>
        in if \<not> isConnecting s1 then connect s1 else (None, s1))"

lemma ws_readyState_upd [simp]:
  "ws_readyState (s\<lparr>messageQueue := q\<rparr>) = ws_readyState s"
  "ws_readyState (s\<lparr>reconnectAttempts := n\<rparr>) = ws_readyState s"
  "ws_readyState (s\<lparr>isConnecting := b\<rparr>) = ws_readyState s"
  "ws_readyState (s\<lparr>log := l\<rparr>) = ws_readyState s"
  "ws_readyState (s\<lparr>timers := k\<rparr>) = ws_readyState s"
  "ws_readyState (s\<lparr>view := v\<rparr>) = ws_readyState s"
  "ws_readyState (s\<lparr>messageHandlers := hs\<rparr>) = ws_readyState s"
  "ws_readyState (s\<lparr>connectionStatusCallbacks := cs\<rparr>) = ws_readyState s"
  by (simp_all add: ws_readyState_def split: option.splits)

lemma send_open_queue:
  "ws_readyState s = Some OPEN \<Longrightarrow> send d s = (r, s') \<Longrightarrow>
     messageQueue s' = messageQueue s \<and> ws_readyState s' = Some OPEN"
  by (auto simp: send_def browser_send_def emit_def ws_readyState_def
      split: option.splits if_splits readyState.splits)

function processMessageQueue :: "'v WebSocketService \<Rightarrow> error option \<times> 'v WebSocketService" where
  "processMessageQueue s =
     (if messageQueue s \<noteq> [] \<and> ws_readyState s = Some OPEN then
        (case send (hd (messageQueue s)) (s\<lparr>messageQueue := tl (messageQueue s)\<rparr>) of
           (Some e, s') \<Rightarrow> (Some e, s')
         | (None, s') \<Rightarrow> processMessageQueue s')
      else (None, s))"
  by pat_completeness auto
termination
proof (relation "measure (\<lambda>s. length (messageQueue s))")
  show "wf (measure (\<lambda>s::'v WebSocketService. length (messageQueue s)))" by simp
next
  fix s :: "'v WebSocketService" and x s' r
  assume a: "messageQueue s \<noteq> [] \<and> ws_readyState s = Some OPEN"
    and b: "(x, s') = send (hd (messageQueue s)) (s\<lparr>messageQueue := tl (messageQueue s)\<rparr>)"
  have "ws_readyState (s\<lparr>messageQueue := tl (messageQueue s)\<rparr>) = Some OPEN"
    using a by simp
  from send_open_queue [OF this b [symmetric]]
  have "messageQueue s' = tl (messageQueue s)" by simp
  with a show "(s', s) \<in> measure (\<lambda>s. length (messageQueue s))"
    by (cases "messageQueue s") auto
qed

declare processMessageQueue.simps [simp del]

text \<open>The handlers \<open>connect\<close> attaches to each socket.\<close>

definition onopen :: "'v WebSocketService \<Rightarrow> error option \<times> 'v WebSocketService" where
  "onopen s =
     (case processMessageQueue (s\<lparr>reconnectAttempts := 0, isConnecting := False\<rparr>) of
        (Some e, s') \<Rightarrow> (Some e, s')
      | (None, s') \<Rightarrow> notifyConnectionStatus connected s')"

fun forEach_handler :: "json \<Rightarrow> (nat \<times> 'v messageHandler) list \<Rightarrow> 'v \<Rightarrow> error option \<times> 'v" where
  "forEach_handler d [] v = (None, v)"
| "forEach_handler d (h # hs) v =
     (case snd h d v of
        (Some e, v') \<Rightarrow> (Some e, v')
      | (None, v') \<Rightarrow> forEach_handler d hs v')"

text \<open>
  \<open>onmessage\<close>. \<open>parse\<close> is \<open>JSON.parse\<close> applied to \<open>event.data\<close>: \<open>None\<close> when it throws
  \<open>SyntaxError\<close>. The \<open>try\<close> block holds both the decoding and the loop over the
  listeners, so the \<open>catch\<close> branch also runs when a listener throws on the decoded value;
  an exception thrown inside the \<open>catch\<close> branch leaves the handler.
\<close>

definition onmessage ::
  "(frame \<Rightarrow> json option) \<Rightarrow> frame \<Rightarrow> 'v WebSocketService \<Rightarrow> error option \<times> 'v WebSocketService" where
  "onmessage parse f s =
     (case parse f of
        None \<Rightarrow>
          (case forEach_handler (event_data f) (messageHandlers s) (view s) of
             (r, v') \<Rightarrow> (r, s\<lparr>view := v'\<rparr>))
      | Some d \<Rightarrow>
          (case forEach_handler d (messageHandlers s) (view s) of
             (None, v') \<Rightarrow> (None, s\<lparr>view := v'\<rparr>)
           | (Some e, v') \<Rightarrow>
               (case forEach_handler (event_data f) (messageHandlers s) v' of
                  (r, v'') \<Rightarrow> (r, s\<lparr>view := v''\<rparr>))))"

definition onclose :: "'v WebSocketService \<Rightarrow> error option \<times> 'v WebSocketService" where
  "onclose s =
     (case notifyConnectionStatus disconnected (s\<lparr>isConnecting := False\<rparr>) of
        (Some e, s') \<Rightarrow> (Some e, s')
      | (None, s') \<Rightarrow> (None, handleReconnect s'))"

definition onerror :: "'v WebSocketService \<Rightarrow> error option \<times> 'v WebSocketService" where
  "onerror s = notifyConnectionStatus disconnected (s\<lparr>isConnecting := False\<rparr>)"

text \<open>The public methods besides \<open>sendMessage\<close>.\<close>

definition addMessageHandler ::
  "nat \<Rightarrow> 'v messageHandler \<Rightarrow> 'v WebSocketService \<Rightarrow> 'v WebSocketService" where
  "addMessageHandler k h s =
     (if k \<in> fst ` set (messageHandlers s) then s
      else s\<lparr>messageHandlers := messageHandlers s @ [(k, h)]\<rparr>)"

definition removeMessageHandler :: "nat \<Rightarrow> 'v WebSocketService \<Rightarrow> 'v WebSocketService" where
  "removeMessageHandler k s = s\<lparr>messageHandlers := filter (\<lambda>h. fst h \<noteq> k) (messageHandlers s)\<rparr>"

definition addConnectionStatusCallback ::
  "nat \<Rightarrow> 'v statusCallback \<Rightarrow> 'v WebSocketService \<Rightarrow> 'v WebSocketService" where
  "addConnectionStatusCallback k c s =
     (if k \<in> fst ` set (connectionStatusCallbacks s) then s
      else s\<lparr>connectionStatusCallbacks := connectionStatusCallbacks s @ [(k, c)]\<rparr>)"

definition removeConnectionStatusCallback :: "nat \<Rightarrow> 'v WebSocketService \<Rightarrow> 'v WebSocketService" where
  "removeConnectionStatusCallback k s =
     s\<lparr>connectionStatusCallbacks := filter (\<lambda>c. fst c \<noteq> k) (connectionStatusCallbacks s)\<rparr>"

definition getConnectionStatus :: "'v WebSocketService \<Rightarrow> status" where
  "getConnectionStatus s = (if ws_readyState s = Some OPEN then connected else disconnected)"

definition close :: "'v WebSocketService \<Rightarrow> 'v WebSocketService" where
  "close s = (case ws s of Some i \<Rightarrow> (browser_close i s)\<lparr>ws := None\<rparr> | None \<Rightarrow> s)"

text \<open>
  The constructor: the field initialisers, then \<open>this.connect()\<close>, which cannot throw
  here, no listener being registered yet. Its arguments are the environment: whether the
  page may open the connection, and the state of the view.
\<close>

definition WebSocketService_new :: "bool \<Rightarrow> 'v \<Rightarrow> 'v WebSocketService" where
  "WebSocketService_new blocked v =
     snd (connect \<lparr>ws = None, reconnectAttempts = 0, messageQueue = [], isConnecting = False,
              messageHandlers = [], connectionStatusCallbacks = [], sockets = [], timers = 0,
              wsBlocked = blocked, log = [], view = v\<rparr>)"

section \<open>The event loop\<close>

text \<open>
  JavaScript runs one callback at a time. An event is a socket event of the socket with
  the given index, a pending timer firing, or a call from the view. \<open>CallSend d\<close> is
  \<open>sendMessage\<close> reaching \<open>this.send(d)\<close>, at once or from \<open>reader.onload\<close>. An exception
  that leaves a callback ends that callback only: the next event starts from the state
  the callback left. The browser
  fires \<open>open\<close> on a connecting socket only, \<open>message\<close> on an open socket only, and \<open>close\<close>
  once per socket (after a failed handshake, a drop, or \<open>close()\<close>); a timer fires only
  if one is pending. An event the browser cannot fire leaves the state as it is.
\<close>

datatype 'v event =
    SockOpen nat
  | SockMessage nat frame
  | SockClose nat
  | SockError nat
  | Timer
  | CallSend jsstring
  | CallClose
  | AddMessageHandler nat "'v messageHandler"
  | RemoveMessageHandler nat
  | AddStatusCallback nat "'v statusCallback"
  | RemoveStatusCallback nat

fun enabled :: "'v event \<Rightarrow> 'v WebSocketService \<Rightarrow> bool" where
  "enabled (SockOpen i) s = (i < length (sockets s) \<and> sockets s ! i = CONNECTING)"
| "enabled (SockMessage i raw) s = (i < length (sockets s) \<and> sockets s ! i = OPEN)"
| "enabled (SockClose i) s = (i < length (sockets s) \<and> sockets s ! i \<noteq> CLOSED)"
| "enabled (SockError i) s = (i < length (sockets s) \<and> sockets s ! i \<noteq> CLOSED)"
| "enabled Timer s = (0 < timers s)"
| "enabled _ s = True"

fun fire ::
  "(frame \<Rightarrow> json option) \<Rightarrow> 'v event \<Rightarrow> 'v WebSocketService \<Rightarrow> error option \<times> 'v WebSocketService" where
  "fire parse (SockOpen i) s = onopen (s\<lparr>sockets := (sockets s)[i := OPEN]\<rparr>)"
| "fire parse (SockMessage i raw) s = onmessage parse raw s"
| "fire parse (SockClose i) s = onclose (s\<lparr>sockets := (sockets s)[i := CLOSED]\<rparr>)"
| "fire parse (SockError i) s = onerror s"
| "fire parse Timer s = connect (emit TimerFired (s\<lparr>timers := timers s - 1\<rparr>))"
| "fire parse (CallSend d) s = send d s"
| "fire parse CallClose s = (None, close s)"
| "fire parse (AddMessageHandler k h) s = (None, addMessageHandler k h s)"
| "fire parse (RemoveMessageHandler k) s = (None, removeMessageHandler k s)"
| "fire parse (AddStatusCallback k c) s = (None, addConnectionStatusCallback k c s)"
| "fire parse (RemoveStatusCallback k) s = (None, removeConnectionStatusCallback k s)"

definition step ::
  "(frame \<Rightarrow> json option) \<Rightarrow> 'v event \<Rightarrow> 'v WebSocketService \<Rightarrow> error option \<times> 'v WebSocketService" where
  "step parse ev s = (if enabled ev s then fire parse ev s else (None, s))"

text \<open>A run: the state after each event is the state the next one starts from.\<close>

fun run :: "(frame \<Rightarrow> json option) \<Rightarrow> 'v event list \<Rightarrow> 'v WebSocketService \<Rightarrow> 'v WebSocketService" where
  "run parse [] s = s"
| "run parse (ev # evs) s = run parse evs (snd (step parse ev s))"

fun is_open_event :: "'v event \<Rightarrow> bool" where
  "is_open_event (SockOpen i) = True"
| "is_open_event _ = False"

section \<open>The message listener of ChatInterface\<close>

text \<open>
  \<open>handleMessage\<close> of \<open>components/ChatInterface.tsx\<close>, the listener the view registers with
  \<open>addMessageHandler\<close>. It acts on two pieces of React state, the list of messages and the
  loading flag. \<open>js\<close> holds the conversions of the language and \<open>now\<close> is the value of
  \<open>Date.now()\<close>. The field \<open>msg_text\<close> holds whatever JavaScript value the handler stores as
  \<open>text\<close>. Every branch calls \<open>setIsLoading(false)\<close> first, so an exception thrown while the
  text of the reply is built leaves the loading flag cleared and no message appended.
\<close>

record Message =
  msg_id :: nat
  msg_text :: "json option"
  isUser :: bool

record chat =
  messages :: "Message list"
  isLoading :: bool

definition error_prefix :: jsstring where
  \<comment> \<open>the two Chinese characters for "error" (U+9519, U+8BEF), a colon and a space\<close>
  "error_prefix = [0x9519, 0x8BEF, 0x3A, 0x20]"

definition upload_prefix :: jsstring where
  \<comment> \<open>the six Chinese characters for "file uploaded", a colon and a space\<close>
  "upload_prefix = [0x6587, 0x4EF6, 0x4E0A, 0x4F20, 0x6210, 0x529F, 0x3A, 0x20]"

text \<open>\<open>setIsLoading(false)\<close>, then \<open>setMessages(prev => [...prev, m])\<close> with \<open>isUser: false\<close>.\<close>

definition show_reply :: "nat \<Rightarrow> json option \<Rightarrow> chat \<Rightarrow> chat" where
  "show_reply now t u =
     u\<lparr>isLoading := False,
       messages := messages u @ [\<lparr>msg_id = now, msg_text = t, isUser = False\<rparr>]\<rparr>"

text \<open>A template literal: the prefix followed by \<open>ToString\<close> of the interpolated value.\<close>

definition show_template :: "builtins \<Rightarrow> nat \<Rightarrow> jsstring \<Rightarrow> json option \<Rightarrow> chat \<Rightarrow> error option \<times> chat" where
  "show_template js now prefix v u =
     (case ToString js v of
        Inl e \<Rightarrow> (Some e, u\<lparr>isLoading := False\<rparr>)
      | Inr t \<Rightarrow> (None, show_reply now (Some (JStr (prefix @ t))) u))"

definition handleMessage :: "builtins \<Rightarrow> nat \<Rightarrow> json \<Rightarrow> chat \<Rightarrow> error option \<times> chat" where
  "handleMessage js now data u =
     (if data = JNull then (Some TypeError, u)
      else if property data (ascii ''type'') = Some (JStr (ascii ''welcome'')) then
        (None, show_reply now (property data (ascii ''content'')) u)
      else if property data (ascii ''status'') = Some (JStr (ascii ''error'')) then
        show_template js now error_prefix (property data (ascii ''message'')) u
      else if property data (ascii ''status'') = Some (JStr (ascii ''success'')) then
        (if property data (ascii ''type'') = Some (JStr (ascii ''file''))
         then show_template js now upload_prefix (property data (ascii ''filename'')) u
         else (None, show_reply now (property data (ascii ''message'')) u))
      else if truthy (property data (ascii ''message'')) then
        (None, show_reply now (property data (ascii ''message'')) u)
      else
        (None, show_reply now (Some (JStr (JSON_stringify js data))) u))"

section \<open>sendMessage\<close>

datatype Mode = PPT_update | lesson_plan | textbook_query

text \<open>
  The argument \<open>data\<close> of \<open>sendMessage\<close>: the text and, when a file is attached, its name,
  MIME type, size and bytes. An absent or \<open>null\<close> file is \<open>None\<close>.
\<close>

record attachment =
  att_name :: jsstring
  att_type :: jsstring
  att_size :: jsnumber
  att_data :: "nat list"

record message_data =
  data_text :: jsstring
  data_file :: "attachment option"

text \<open>The object \<open>message\<close> that \<open>sendMessage\<close> builds and serialises.\<close>

record envelope =
  env_text :: jsstring
  fileData :: "jsstring option"
  filename :: "jsstring option"
  fileType :: "jsstring option"
  fileSize :: "jsnumber option"

definition nullable :: "('a \<Rightarrow> json) \<Rightarrow> 'a option \<Rightarrow> json" where
  "nullable f v = (case v of None \<Rightarrow> JNull | Some x \<Rightarrow> f x)"

definition envelope_json :: "envelope \<Rightarrow> json" where
  "envelope_json m =
     JObj [(ascii ''text'', JStr (env_text m)),
           (ascii ''fileData'', nullable JStr (fileData m)),
           (ascii ''filename'', nullable JStr (filename m)),
           (ascii ''fileType'', nullable JStr (fileType m)),
           (ascii ''fileSize'', nullable JNum (fileSize m))]"

text \<open>
  The promise \<open>sendMessage\<close> returns is settled by the \<open>try\<close>/\<open>catch\<close> around \<open>this.send\<close>:
  resolved when \<open>send\<close> returns, rejected with the exception when it throws. With a file
  attached nothing is sent yet: a \<open>FileReader\<close> is started on the bytes and the promise
  stays pending until the reader's \<open>onload\<close> runs, with \<open>reader.result\<close> (the data URL the
  browser computed) as \<open>base64Data\<close>.
\<close>

datatype promise = Resolved | Rejected error | Reading "nat list"

definition settle :: "error option \<Rightarrow> promise" where
  "settle r = (case r of None \<Rightarrow> Resolved | Some e \<Rightarrow> Rejected e)"

definition reader_onload ::
  "builtins \<Rightarrow> jsstring \<Rightarrow> message_data \<Rightarrow> 'v WebSocketService \<Rightarrow> promise \<times> 'v WebSocketService" where
  "reader_onload js base64Data data s =
     (let message = \<lparr>env_text = data_text data,
                      fileData = Some base64Data,
                      filename = map_option att_name (data_file data),
                      fileType = map_option att_type (data_file data),
                      fileSize = map_option att_size (data_file data)\<rparr>
      in case send (JSON_stringify js (envelope_json message)) s of
           (r, s') \<Rightarrow> (settle r, s'))"

definition sendMessage ::
  "builtins \<Rightarrow> Mode \<Rightarrow> message_data \<Rightarrow> 'v WebSocketService \<Rightarrow> promise \<times> 'v WebSocketService" where
  "sendMessage js mode data s =
     (case data_file data of
        Some f \<Rightarrow> (Reading (att_data f), s)
      | None \<Rightarrow>
          let message = \<lparr>env_text = data_text data, fileData = None, filename = None,
                          fileType = None, fileSize = None\<rparr>
          in case send (JSON_stringify js (envelope_json message)) s of
               (r, s') \<Rightarrow> (settle r, s'))"

section \<open>useWebSocket\<close>

text \<open>
  The hook keeps two pieces of React state: \<open>status\<close>, which starts as \<open>'disconnected'\<close>, and
  the service, constructed on the first render. Here the state the listeners act on is
  the hook's \<open>status\<close>. The effect runs after the first render, whatever has happened to
  the service by then: it registers a callback that sets \<open>status\<close> to the status it is
  called with, then sets \<open>status\<close> to \<open>getConnectionStatus()\<close>; its cleanup removes the
  callback. \<open>k\<close> is the identity of the callback.
\<close>

definition setStatus :: "status statusCallback" where
  "setStatus newStatus old = (None, newStatus)"

definition useWebSocket_first_render :: "bool \<Rightarrow> status WebSocketService" where
  "useWebSocket_first_render blocked = WebSocketService_new blocked disconnected"

definition useWebSocket_effect :: "nat \<Rightarrow> status WebSocketService \<Rightarrow> status WebSocketService" where
  "useWebSocket_effect k s =
     (let s1 = addConnectionStatusCallback k setStatus s
      in s1\<lparr>view := getConnectionStatus s1\<rparr>)"

definition useWebSocket_cleanup :: "nat \<Rightarrow> status WebSocketService \<Rightarrow> status WebSocketService" where
  "useWebSocket_cleanup k s = removeConnectionStatusCallback k s"

section \<open>Auxiliary notions for the proofs\<close>

text \<open>
  Read off the log: how many reconnect timers have fired, how many were scheduled, and
  how often the \<open>WebSocket\<close> constructor was called.
\<close>

definition fired :: "'v WebSocketService \<Rightarrow> nat" where
  "fired s = count_list (log s) TimerFired"

definition scheduled :: "'v WebSocketService \<Rightarrow> nat" where
  "scheduled s = count_list (log s) (SetTimeout reconnectTimeout)"

definition attempts :: "'v WebSocketService \<Rightarrow> nat" where
  "attempts s = count_list (log s) NewWebSocket"

text \<open>
  The bookkeeping between two states of a run without an \<open>open\<close> event: the counter only
  grows and stays within the maximum, and every increment of it accounts for one timer
  scheduled, which is pending or has fired.
\<close>

definition bal :: "'v WebSocketService \<Rightarrow> 'v WebSocketService \<Rightarrow> bool" where
  "bal s s' =
     (reconnectAttempts s \<le> reconnectAttempts s' \<and>
      reconnectAttempts s' \<le> maxReconnectAttempts \<and>
      fired s \<le> fired s' \<and>
      timers s' + fired s' + reconnectAttempts s = timers s + fired s + reconnectAttempts s' \<and>
      scheduled s' + reconnectAttempts s = scheduled s + reconnectAttempts s')"

text \<open>
  The sockets of a service: the current socket exists, and a socket that is connecting or
  open is the current one (every socket \<open>connect\<close> replaces has been closed first).
\<close>

definition sockets_ok :: "'v WebSocketService \<Rightarrow> bool" where
  "sockets_ok s \<longleftrightarrow>
     (\<forall>j. ws s = Some j \<longrightarrow> j < length (sockets s)) \<and>
     (\<forall>j < length (sockets s). sockets s ! j = CONNECTING \<or> sockets s ! j = OPEN \<longrightarrow> ws s = Some j)"

text \<open>
  What the view looks like after each listener, in the order of registration, has been
  called with the payload.
\<close>

definition deliver_all :: "json \<Rightarrow> (nat \<times> 'v messageHandler) list \<Rightarrow> 'v \<Rightarrow> 'v" where
  "deliver_all d hs v = fold (\<lambda>h v. snd (snd h d v)) hs v"

section \<open>Examples\<close>

text \<open>
  The conversions of the language on the values of the examples. \<open>example_number\<close> prints
  an integer \<open>Double m 0\<close> of magnitude below \<open>10^21\<close> in decimal, as JavaScript does; the
  examples use no other number. \<open>example_quote\<close> is the quoting of \<open>JSON.stringify\<close> on a
  string of printable ASCII characters other than the double quote and the backslash; the
  examples quote no other string.
\<close>

fun digits :: "nat \<Rightarrow> jsstring" where
  "digits n = (if n < 10 then [48 + n] else digits (n div 10) @ [48 + n mod 10])"

declare digits.simps [simp del]

definition example_number :: "jsnumber \<Rightarrow> jsstring" where
  "example_number n =
     (case n of
        Double m e \<Rightarrow> if m < 0 then 45 # digits (nat (- m)) else digits (nat m)
      | NegZero \<Rightarrow> ascii ''0''
      | Infinity neg \<Rightarrow> if neg then ascii ''-Infinity'' else ascii ''Infinity''
      | NaN \<Rightarrow> ascii ''NaN'')"

definition example_quote :: "jsstring \<Rightarrow> jsstring" where
  "example_quote s = 34 # s @ [34]"

fun join :: "jsstring \<Rightarrow> jsstring list \<Rightarrow> jsstring" where
  "join sep [] = []"
| "join sep [x] = x"
| "join sep (x # y # ys) = x @ sep @ join sep (y # ys)"

fun example_stringify :: "json \<Rightarrow> jsstring" where
  "example_stringify JNull = ascii ''null''"
| "example_stringify (JBool b) = (if b then ascii ''true'' else ascii ''false'')"
| "example_stringify (JNum n) = example_number n"
| "example_stringify (JStr s) = example_quote s"
| "example_stringify (JArr xs) = ascii ''['' @ join (ascii '','') (map example_stringify xs) @ ascii '']''"
| "example_stringify (JObj kvs) =
     ascii ''{'' @ join (ascii '','')
        (map (\<lambda>kv. example_quote (fst kv) @ ascii '':'' @ example_stringify (snd kv)) kvs) @ ascii ''}''"
| "example_stringify (JBlob b) = ascii ''{}''"

text \<open>
  \<open>ToString\<close> with these numbers. An object decoded from JSON that has a key \<open>toString\<close> of
  its own has no callable \<open>toString\<close>, and its \<open>valueOf\<close> returns no primitive: the
  conversion throws \<open>TypeError\<close>. Any other object converts to \<open>[object Object]\<close>. An array
  converts to its elements' conversions joined by commas, \<open>null\<close> counting as the empty
  string, and throws when an element does.
\<close>

fun example_toString :: "json \<Rightarrow> error + jsstring" where
  "example_toString JNull = Inr (ascii ''null'')"
| "example_toString (JBool b) = Inr (if b then ascii ''true'' else ascii ''false'')"
| "example_toString (JNum n) = Inr (example_number n)"
| "example_toString (JStr s) = Inr s"
| "example_toString (JArr xs) =
     (let rs = map (\<lambda>x. if x = JNull then Inr [] else example_toString x) xs
      in case filter isl rs of
           e # es \<Rightarrow> Inl (projl e)
         | [] \<Rightarrow> Inr (join (ascii '','') (map projr rs)))"
| "example_toString (JObj kvs) =
     (if ascii ''toString'' \<in> fst ` set kvs then Inl TypeError
      else Inr (ascii ''[object Object]''))"
| "example_toString (JBlob b) = Inr (ascii ''[object Blob]'')"

definition example_ToString :: "json option \<Rightarrow> error + jsstring" where
  "example_ToString v = (case v of None \<Rightarrow> Inr (ascii ''undefined'') | Some x \<Rightarrow> example_toString x)"

definition example_js :: builtins where
  "example_js = \<lparr>ToString = example_ToString, JSON_stringify = example_stringify\<rparr>"

text \<open>
  Concrete runs: a decoder that rejects every frame, a service just constructed on a page
  that may connect, and six handshakes failing in a row (the first attempt and five
  reconnects).
\<close>

definition no_parse :: "frame \<Rightarrow> json option" where
  "no_parse f = None"

definition fresh :: "unit WebSocketService" where
  "fresh = WebSocketService_new False ()"

definition six_failures :: "unit event list" where
  "six_failures = [SockClose 0, Timer, SockClose 1, Timer, SockClose 2, Timer,
                   SockClose 3, Timer, SockClose 4, Timer, SockClose 5, Timer]"

text \<open>
  A reconnect timer left pending by a connection that was then opened by \<open>send\<close>: the first
  handshake fails (one timer is scheduled), a message is sent before the timer fires (a
  second socket is created) and that socket opens. Then the pending timer fires and
  replaces the open socket, and every socket created from then on fails.
\<close>

definition opened_with_stale_timer :: "unit WebSocketService" where
  "opened_with_stale_timer = run no_parse [SockClose 0, CallSend (ascii ''x''), SockOpen 1] fresh"

definition stale_timer_tail :: "unit event list" where
  "stale_timer_tail = [Timer, SockClose 1, Timer, SockClose 2, Timer, SockClose 3,
                       Timer, SockClose 4, Timer, SockClose 5, Timer, SockClose 6, SockClose 7]"

text \<open>
  A status listener that throws, registered with a service on a page that may not
  connect.
\<close>

definition failing_callback :: "unit statusCallback" where
  "failing_callback st v = (Some TypeError, v)"

definition blocked_failing :: "unit WebSocketService" where
  "blocked_failing = addConnectionStatusCallback 0 failing_callback (WebSocketService_new True ())"

text \<open>
  Message listeners, on a view made of a chat and a list of payloads: the chat's
  \<open>handleMessage\<close>, a listener that records what it is given, and one that always throws;
  a decoder that accepts the text frame \<open>null\<close> only; services with these listeners
  registered; and a chat that waits for a reply.
\<close>

definition chat_listener :: "(chat \<times> json list) messageHandler" where
  "chat_listener d v = (case handleMessage example_js 0 d (fst v) of (r, c) \<Rightarrow> (r, (c, snd v)))"

definition log_listener :: "(chat \<times> json list) messageHandler" where
  "log_listener d v = (None, (fst v, snd v @ [d]))"

definition failing_listener :: "(chat \<times> json list) messageHandler" where
  "failing_listener d v = (Some TypeError, v)"

definition parse_null :: "frame \<Rightarrow> json option" where
  "parse_null f = (if f = TextFrame (ascii ''null'') then Some JNull else None)"

definition waiting :: chat where
  "waiting = \<lparr>messages = [], isLoading = True\<rparr>"

definition two_listeners :: "(chat \<times> json list) WebSocketService" where
  "two_listeners =
     addMessageHandler 1 log_listener
       (addMessageHandler 0 chat_listener (WebSocketService_new False (waiting, [])))"

definition one_listener :: "(chat \<times> json list) WebSocketService" where
  "one_listener = addMessageHandler 1 log_listener (WebSocketService_new False (waiting, []))"

definition failing_first :: "(chat \<times> json list) WebSocketService" where
  "failing_first =
     addMessageHandler 1 log_listener
       (addMessageHandler 0 failing_listener (WebSocketService_new False (waiting, [])))"

text \<open>The hook after its first render and its effect, on a page that may connect.\<close>

definition mounted :: "status WebSocketService" where
  "mounted = useWebSocket_effect 0 (useWebSocket_first_render False)"

section \<open>Basic facts\<close>

lemma notify_fields [simp]:
  "reconnectAttempts (snd (notifyConnectionStatus st s)) = reconnectAttempts s"
  "timers (snd (notifyConnectionStatus st s)) = timers s"
  "log (snd (notifyConnectionStatus st s)) = log s"
  "messageQueue (snd (notifyConnectionStatus st s)) = messageQueue s"
  "ws (snd (notifyConnectionStatus st s)) = ws s"
  "sockets (snd (notifyConnectionStatus st s)) = sockets s"
  "isConnecting (snd (notifyConnectionStatus st s)) = isConnecting s"
  "wsBlocked (snd (notifyConnectionStatus st s)) = wsBlocked s"
  "connectionStatusCallbacks (snd (notifyConnectionStatus st s)) = connectionStatusCallbacks s"
  "messageHandlers (snd (notifyConnectionStatus st s)) = messageHandlers s"
  by (simp_all add: notifyConnectionStatus_def split: prod.splits)

lemma notify_result:
  "fst (notifyConnectionStatus st s) = fst (forEach_callback st (connectionStatusCallbacks s) (view s))"
  "view (snd (notifyConnectionStatus st s)) = snd (forEach_callback st (connectionStatusCallbacks s) (view s))"
  by (simp_all add: notifyConnectionStatus_def split: prod.splits)

lemma ws_readyState_notify [simp]:
  "ws_readyState (snd (notifyConnectionStatus st s)) = ws_readyState s"
  by (simp add: ws_readyState_def split: option.splits)

text \<open>
  A notification followed by \<open>handleReconnect\<close>, as in \<open>onclose\<close> and in the \<open>catch\<close> branch
  of \<open>connect\<close>: \<open>handleReconnect\<close> runs unless a listener throws.
\<close>

lemma notify_then_reconnect:
  "(case notifyConnectionStatus st s of
      (Some e, s') \<Rightarrow> (Some e, s')
    | (None, s') \<Rightarrow> (None, handleReconnect s'))
   = (fst (notifyConnectionStatus st s),
      if fst (notifyConnectionStatus st s) = None
      then handleReconnect (snd (notifyConnectionStatus st s))
      else snd (notifyConnectionStatus st s))"
  by (cases "notifyConnectionStatus st s"; cases "fst (notifyConnectionStatus st s)") auto

lemma browser_close_fields [simp]:
  "reconnectAttempts (browser_close i s) = reconnectAttempts s"
  "timers (browser_close i s) = timers s"
  "log (browser_close i s) = log s @ [WsClose i]"
  "messageQueue (browser_close i s) = messageQueue s"
  "isConnecting (browser_close i s) = isConnecting s"
  "wsBlocked (browser_close i s) = wsBlocked s"
  "connectionStatusCallbacks (browser_close i s) = connectionStatusCallbacks s"
  "view (browser_close i s) = view s"
  by (simp_all add: browser_close_def emit_def Let_def)

lemma handleReconnect_fields [simp]:
  "ws (handleReconnect s) = ws s"
  "sockets (handleReconnect s) = sockets s"
  "messageQueue (handleReconnect s) = messageQueue s"
  "isConnecting (handleReconnect s) = isConnecting s"
  "view (handleReconnect s) = view s"
  "connectionStatusCallbacks (handleReconnect s) = connectionStatusCallbacks s"
  by (simp_all add: handleReconnect_def emit_def)

text \<open>\<open>connect\<close> with the socket it replaces closed by \<open>close\<close>.\<close>

lemma connect_alt:
  "connect s =
     (if isConnecting s then (None, s)
      else if wsBlocked s
        then (fst (notifyConnectionStatus disconnected
                    ((emit NewWebSocket (close (s\<lparr>isConnecting := True\<rparr>)))\<lparr>isConnecting := False\<rparr>)),
              if fst (notifyConnectionStatus disconnected
                    ((emit NewWebSocket (close (s\<lparr>isConnecting := True\<rparr>)))\<lparr>isConnecting := False\<rparr>)) = None
              then handleReconnect (snd (notifyConnectionStatus disconnected
                    ((emit NewWebSocket (close (s\<lparr>isConnecting := True\<rparr>)))\<lparr>isConnecting := False\<rparr>)))
              else snd (notifyConnectionStatus disconnected
                    ((emit NewWebSocket (close (s\<lparr>isConnecting := True\<rparr>)))\<lparr>isConnecting := False\<rparr>)))
        else (None, (emit NewWebSocket (close (s\<lparr>isConnecting := True\<rparr>)))
               \<lparr>sockets := sockets (close (s\<lparr>isConnecting := True\<rparr>)) @ [CONNECTING],
                ws := Some (length (sockets (close (s\<lparr>isConnecting := True\<rparr>))))\<rparr>))"
proof -
  have c: "(case ws (s\<lparr>isConnecting := True\<rparr>) of
              Some i \<Rightarrow> (browser_close i (s\<lparr>isConnecting := True\<rparr>))\<lparr>ws := None\<rparr>
            | None \<Rightarrow> s\<lparr>isConnecting := True\<rparr>) = close (s\<lparr>isConnecting := True\<rparr>)"
    by (simp add: close_def)
  have w: "wsBlocked (emit NewWebSocket (close (s\<lparr>isConnecting := True\<rparr>))) = wsBlocked s"
    by (simp add: emit_def close_def split: option.splits)
  show ?thesis
    unfolding connect_def Let_def c w notify_then_reconnect
    by (simp add: emit_def)
qed

lemma close_fields [simp]:
  "reconnectAttempts (close s) = reconnectAttempts s"
  "timers (close s) = timers s"
  "messageQueue (close s) = messageQueue s"
  "isConnecting (close s) = isConnecting s"
  "wsBlocked (close s) = wsBlocked s"
  "connectionStatusCallbacks (close s) = connectionStatusCallbacks s"
  "view (close s) = view s"
  "ws (close s) = None"
  by (simp_all add: close_def split: option.splits)

lemma close_log:
  "count_list (log (close s)) TimerFired = count_list (log s) TimerFired"
  "count_list (log (close s)) (SetTimeout n) = count_list (log s) (SetTimeout n)"
  "count_list (log (close s)) NewWebSocket = count_list (log s) NewWebSocket"
  by (simp_all add: close_def split: option.splits)

lemma step_disabled: "\<not> enabled ev s \<Longrightarrow> step parse ev s = (None, s)"
  unfolding step_def by (rule if_not_P)

lemmas eval_simps = step_def WebSocketService_new_def connect_def Let_def emit_def
     handleReconnect_def notifyConnectionStatus_def onclose_def onerror_def onopen_def
     maxReconnectAttempts_def reconnectTimeout_def browser_close_def browser_send_def
     send_def ws_readyState_def close_def processMessageQueue.simps nth_append
     isOpen_def addMessageHandler_def addConnectionStatusCallback_def onmessage_def event_data_def

lemmas chat_simps = handleMessage_def show_reply_def show_template_def property_def truthy_def
  error_prefix_def upload_prefix_def

lemmas envelope_simps = sendMessage_def reader_onload_def settle_def envelope_json_def nullable_def

section \<open>The drain of the outbound queue\<close>

lemma send_open:
  assumes "ws_readyState s = Some OPEN"
  shows "\<exists>i. ws s = Some i \<and> i < length (sockets s) \<and> sockets s ! i = OPEN \<and>
             send d s = (None, emit (WsSend i d) s)"
  using assms
  by (auto simp: send_def browser_send_def ws_readyState_def split: option.splits if_splits)

lemma processMessageQueue_closed:
  "ws_readyState s \<noteq> Some OPEN \<Longrightarrow> processMessageQueue s = (None, s)"
  by (simp add: processMessageQueue.simps)

lemma processMessageQueue_open:
  assumes "ws s = Some i" "i < length (sockets s)" "sockets s ! i = OPEN" "messageQueue s = q"
  shows "processMessageQueue s =
           (None, s\<lparr>messageQueue := [], log := log s @ map (WsSend i) q\<rparr>)"
  using assms
proof (induction q arbitrary: s)
  case Nil
  then show ?case by (simp add: processMessageQueue.simps)
next
  case (Cons d q)
  let ?s1 = "s\<lparr>messageQueue := q\<rparr>"
  have op: "ws_readyState s = Some OPEN" using Cons.prems by (simp add: ws_readyState_def)
  then have "ws_readyState ?s1 = Some OPEN" by simp
  from send_open [OF this, of d] Cons.prems
  have sd: "send d ?s1 = (None, emit (WsSend i d) ?s1)" by auto
  have "processMessageQueue (emit (WsSend i d) ?s1) =
          (None, (emit (WsSend i d) ?s1)\<lparr>messageQueue := [],
             log := log (emit (WsSend i d) ?s1) @ map (WsSend i) q\<rparr>)"
    using Cons.prems by (intro Cons.IH) (simp_all add: emit_def)
  then show ?case
    using Cons.prems op sd
    by (subst processMessageQueue.simps) (simp add: emit_def)
qed

lemma processMessageQueue_cases:
  "processMessageQueue s = (None, s) \<or>
   (\<exists>i. ws s = Some i \<and> i < length (sockets s) \<and> sockets s ! i = OPEN \<and>
      processMessageQueue s = (None, s\<lparr>messageQueue := [], log := log s @ map (WsSend i) (messageQueue s)\<rparr>))"
proof (cases "ws_readyState s = Some OPEN")
  case False
  then show ?thesis by (simp add: processMessageQueue_closed)
next
  case True
  then obtain i where "ws s = Some i" "i < length (sockets s)" "sockets s ! i = OPEN"
    by (auto simp: ws_readyState_def split: option.splits if_splits)
  then show ?thesis using processMessageQueue_open [of s i "messageQueue s"] by auto
qed



lemma processMessageQueue_returns: "fst (processMessageQueue s) = None"
  using processMessageQueue_cases [of s] by auto

lemma processMessageQueue_counter:
  "reconnectAttempts (snd (processMessageQueue s)) = reconnectAttempts s"
  using processMessageQueue_cases [of s] by auto

lemma onopen_alt:
  "onopen s = notifyConnectionStatus connected
                (snd (processMessageQueue (s\<lparr>reconnectAttempts := 0, isConnecting := False\<rparr>)))"
  using processMessageQueue_returns [of "s\<lparr>reconnectAttempts := 0, isConnecting := False\<rparr>"]
  by (cases "processMessageQueue (s\<lparr>reconnectAttempts := 0, isConnecting := False\<rparr>)")
     (simp add: onopen_def)

lemma onopen_counter: "reconnectAttempts (snd (onopen s)) = 0"
  by (simp add: onopen_alt processMessageQueue_counter)

section \<open>Reconnection is bounded\<close>

lemma bal_refl: "reconnectAttempts s \<le> maxReconnectAttempts \<Longrightarrow> bal s s"
  by (simp add: bal_def)

lemma bal_trans: "bal s t \<Longrightarrow> bal t u \<Longrightarrow> bal s u"
  by (auto simp: bal_def)

lemma bal_same:
  "reconnectAttempts s \<le> maxReconnectAttempts \<Longrightarrow> reconnectAttempts t = reconnectAttempts s \<Longrightarrow>
   timers t = timers s \<Longrightarrow> fired t = fired s \<Longrightarrow> scheduled t = scheduled s \<Longrightarrow> bal s t"
  by (simp add: bal_def)

lemma handleReconnect_bal:
  "reconnectAttempts s \<le> maxReconnectAttempts \<Longrightarrow> bal s (handleReconnect s)"
  by (simp add: bal_def handleReconnect_def emit_def scheduled_def fired_def)

lemma notify_bal:
  "reconnectAttempts s \<le> maxReconnectAttempts \<Longrightarrow> bal s (snd (notifyConnectionStatus st s))"
  by (intro bal_same) (simp_all add: fired_def scheduled_def)

lemma notify_reconnect_bal:
  assumes "reconnectAttempts s \<le> maxReconnectAttempts"
  shows "bal s (if fst (notifyConnectionStatus st s) = None
                then handleReconnect (snd (notifyConnectionStatus st s))
                else snd (notifyConnectionStatus st s))"
proof -
  have n: "bal s (snd (notifyConnectionStatus st s))" using assms by (rule notify_bal)
  then have "bal (snd (notifyConnectionStatus st s)) (handleReconnect (snd (notifyConnectionStatus st s)))"
    by (intro handleReconnect_bal) (simp add: bal_def)
  with n show ?thesis by (auto intro: bal_trans)
qed

lemma connect_bal:
  assumes "reconnectAttempts s \<le> maxReconnectAttempts"
  shows "bal s (snd (connect s))"
proof -
  let ?c = "emit NewWebSocket (close (s\<lparr>isConnecting := True\<rparr>))"
  have c: "bal s (?c\<lparr>isConnecting := False\<rparr>)"
    using assms by (intro bal_same) (simp_all add: emit_def fired_def scheduled_def close_log)
  then have "reconnectAttempts (?c\<lparr>isConnecting := False\<rparr>) \<le> maxReconnectAttempts"
    by (simp add: bal_def)
  from notify_reconnect_bal [OF this, of disconnected] c
  have blocked: "bal s (if fst (notifyConnectionStatus disconnected (?c\<lparr>isConnecting := False\<rparr>)) = None
                then handleReconnect (snd (notifyConnectionStatus disconnected (?c\<lparr>isConnecting := False\<rparr>)))
                else snd (notifyConnectionStatus disconnected (?c\<lparr>isConnecting := False\<rparr>)))"
    by (blast intro: bal_trans)
  have fresh: "bal s (?c\<lparr>sockets := sockets (close (s\<lparr>isConnecting := True\<rparr>)) @ [CONNECTING],
                ws := Some (length (sockets (close (s\<lparr>isConnecting := True\<rparr>))))\<rparr>)"
    using assms by (intro bal_same) (simp_all add: emit_def fired_def scheduled_def close_log)
  show ?thesis
    using assms blocked fresh by (simp add: connect_alt bal_refl)
qed

lemma send_bal:
  assumes "reconnectAttempts s \<le> maxReconnectAttempts"
  shows "bal s (snd (send d s))"
proof (cases "ws_readyState s = Some OPEN")
  case True
  then show ?thesis using assms
    by (auto intro!: bal_same simp: send_def browser_send_def emit_def fired_def scheduled_def
        split: option.splits readyState.splits)
next
  case False
  have "bal s (s\<lparr>messageQueue := messageQueue s @ [d]\<rparr>)"
    using assms by (auto intro!: bal_same simp: fired_def scheduled_def)
  moreover have "bal (s\<lparr>messageQueue := messageQueue s @ [d]\<rparr>)
                     (snd (connect (s\<lparr>messageQueue := messageQueue s @ [d]\<rparr>)))"
    using assms by (intro connect_bal) simp
  ultimately show ?thesis using False
    by (auto simp: send_def Let_def intro: bal_trans)
qed

lemma step_bal:
  assumes "reconnectAttempts s \<le> maxReconnectAttempts" "\<not> is_open_event ev"
  shows "bal s (snd (step parse ev s))"
proof (cases "enabled ev s")
  case False
  then show ?thesis using assms by (simp add: step_def bal_refl)
next
  case True
  show ?thesis
  proof (cases ev)
    case (SockOpen i)
    then show ?thesis using assms by simp
  next
    case (SockMessage i raw)
    then show ?thesis using assms True
      by (auto intro!: bal_same simp: step_def onmessage_def fired_def scheduled_def
          split: option.splits prod.splits)
  next
    case (SockClose i)
    let ?s0 = "s\<lparr>sockets := (sockets s)[i := CLOSED], isConnecting := False\<rparr>"
    have "bal s ?s0" using assms by (auto intro!: bal_same simp: fired_def scheduled_def)
    moreover have "bal ?s0 (if fst (notifyConnectionStatus disconnected ?s0) = None
                then handleReconnect (snd (notifyConnectionStatus disconnected ?s0))
                else snd (notifyConnectionStatus disconnected ?s0))"
      using assms by (intro notify_reconnect_bal) simp
    ultimately show ?thesis using SockClose True
      by (auto simp: step_def onclose_def notify_then_reconnect intro: bal_trans)
  next
    case (SockError i)
    have "bal s (s\<lparr>isConnecting := False\<rparr>)"
      using assms by (auto intro!: bal_same simp: fired_def scheduled_def)
    moreover have "bal (s\<lparr>isConnecting := False\<rparr>)
        (snd (notifyConnectionStatus disconnected (s\<lparr>isConnecting := False\<rparr>)))"
      using assms by (intro notify_bal) simp
    ultimately show ?thesis using SockError True
      by (auto simp: step_def onerror_def intro: bal_trans)
  next
    case Timer
    have "bal s (emit TimerFired (s\<lparr>timers := timers s - 1\<rparr>))"
      using assms True Timer by (auto simp: bal_def emit_def fired_def scheduled_def)
    moreover have "bal (emit TimerFired (s\<lparr>timers := timers s - 1\<rparr>))
                       (snd (connect (emit TimerFired (s\<lparr>timers := timers s - 1\<rparr>))))"
      using assms by (intro connect_bal) (simp add: emit_def)
    ultimately show ?thesis using Timer True
      by (auto simp: step_def intro: bal_trans)
  next
    case (CallSend d)
    then show ?thesis using assms True by (simp add: step_def send_bal)
  next
    case CallClose
    then show ?thesis using assms True
      by (auto intro!: bal_same simp: step_def fired_def scheduled_def close_log)
  next
    case (AddMessageHandler k h)
    then show ?thesis using assms True
      by (auto intro!: bal_same simp: step_def addMessageHandler_def fired_def scheduled_def)
  next
    case (RemoveMessageHandler k)
    then show ?thesis using assms True
      by (auto intro!: bal_same simp: step_def removeMessageHandler_def fired_def scheduled_def)
  next
    case (AddStatusCallback k c)
    then show ?thesis using assms True
      by (auto intro!: bal_same simp: step_def addConnectionStatusCallback_def fired_def scheduled_def)
  next
    case (RemoveStatusCallback k)
    then show ?thesis using assms True
      by (auto intro!: bal_same simp: step_def removeConnectionStatusCallback_def fired_def scheduled_def)
  qed
qed

lemma run_bal:
  "reconnectAttempts s \<le> maxReconnectAttempts \<Longrightarrow> \<forall>ev\<in>set evs. \<not> is_open_event ev \<Longrightarrow>
   bal s (run parse evs s)"
proof (induction evs arbitrary: s)
  case Nil
  then show ?case by (simp add: bal_refl)
next
  case (Cons ev evs)
  have 1: "bal s (snd (step parse ev s))" using Cons.prems by (intro step_bal) auto
  then have "reconnectAttempts (snd (step parse ev s)) \<le> maxReconnectAttempts" by (simp add: bal_def)
  then have "bal (snd (step parse ev s)) (run parse evs (snd (step parse ev s)))"
    using Cons.prems by (intro Cons.IH) auto
  with 1 show ?case by (auto intro: bal_trans)
qed

lemma init_bal:
  "reconnectAttempts (WebSocketService_new blocked v) \<le> maxReconnectAttempts \<and>
   timers (WebSocketService_new blocked v) + fired (WebSocketService_new blocked v)
     = reconnectAttempts (WebSocketService_new blocked v)"
  by (simp add: WebSocketService_new_def connect_def Let_def emit_def handleReconnect_def
      notifyConnectionStatus_def fired_def maxReconnectAttempts_def)

lemma step_counter_le:
  assumes "reconnectAttempts s \<le> maxReconnectAttempts"
  shows "reconnectAttempts (snd (step parse ev s)) \<le> maxReconnectAttempts"
proof (cases "is_open_event ev")
  case False
  with step_bal [OF assms, of ev parse] show ?thesis by (simp add: bal_def)
next
  case True
  then obtain i where "ev = SockOpen i" by (cases ev) auto
  then show ?thesis using assms by (simp add: step_def onopen_counter)
qed

lemma run_counter_le:
  "reconnectAttempts s \<le> maxReconnectAttempts \<Longrightarrow>
   reconnectAttempts (run parse evs s) \<le> maxReconnectAttempts"
  by (induction evs arbitrary: s) (simp_all add: step_counter_le)

text \<open>
  C1, as amended. Take any state the service can reach and any continuation of the run
  without an \<open>open\<close> event. The reconnect timers that fire in the continuation are at most
  those pending at its start plus five minus the counter at its start. The timers
  scheduled in it are as many as the increments of the counter, which stays within the
  maximum of five; once the counter is at the maximum none is scheduled and the pending
  ones do not grow. When the continuation is the whole run (no socket has ever opened),
  at most five timers fire: a sixth timer-driven call of \<open>connect\<close> never happens.
\<close>

theorem reconnect_attempts_bounded:
  assumes "s = run parse pre (WebSocketService_new blocked v)"
    and "\<forall>ev\<in>set evs. \<not> is_open_event ev"
  shows "count_list (log (run parse evs s)) TimerFired + reconnectAttempts s
           \<le> count_list (log s) TimerFired + timers s + maxReconnectAttempts \<and>
         count_list (log (run parse evs s)) (SetTimeout reconnectTimeout) + reconnectAttempts s
           = count_list (log s) (SetTimeout reconnectTimeout) + reconnectAttempts (run parse evs s) \<and>
         reconnectAttempts (run parse evs s) \<le> maxReconnectAttempts \<and>
         (reconnectAttempts s = maxReconnectAttempts \<longrightarrow>
            count_list (log (run parse evs s)) (SetTimeout reconnectTimeout)
              = count_list (log s) (SetTimeout reconnectTimeout) \<and>
            timers (run parse evs s) \<le> timers s) \<and>
         (pre = [] \<longrightarrow> count_list (log (run parse evs s)) TimerFired \<le> maxReconnectAttempts)"
proof -
  have le: "reconnectAttempts s \<le> maxReconnectAttempts"
    unfolding assms(1) using init_bal [of blocked v] by (intro run_counter_le) simp
  have b: "bal s (run parse evs s)" using le assms(2) by (rule run_bal)
  have 1: "count_list (log (run parse evs s)) TimerFired + reconnectAttempts s
           \<le> count_list (log s) TimerFired + timers s + maxReconnectAttempts"
    using b by (simp add: bal_def fired_def)
  have 2: "count_list (log (run parse evs s)) (SetTimeout reconnectTimeout) + reconnectAttempts s
           = count_list (log s) (SetTimeout reconnectTimeout) + reconnectAttempts (run parse evs s)"
    using b by (simp add: bal_def scheduled_def)
  have 3: "reconnectAttempts (run parse evs s) \<le> maxReconnectAttempts"
    using b by (simp add: bal_def)
  have 4: "count_list (log (run parse evs s)) (SetTimeout reconnectTimeout)
              = count_list (log s) (SetTimeout reconnectTimeout) \<and>
            timers (run parse evs s) \<le> timers s"
    if "reconnectAttempts s = maxReconnectAttempts"
    using b that by (simp add: bal_def scheduled_def fired_def)
  have 5: "count_list (log (run parse evs s)) TimerFired \<le> maxReconnectAttempts" if "pre = []"
  proof -
    from that assms(1) have "s = WebSocketService_new blocked v" by simp
    with init_bal [of blocked v] b show ?thesis by (simp add: bal_def fired_def)
  qed
  from 1 2 3 4 5 show ?thesis by blast
qed

theorem reconnect_attempts_bounded_witness:
  "list_all (\<lambda>ev. \<not> is_open_event ev) six_failures \<and>
   count_list (log (run no_parse six_failures fresh)) TimerFired = 5 \<and>
   count_list (log (run no_parse six_failures fresh)) NewWebSocket = 6 \<and>
   \<not> enabled Timer (run no_parse six_failures fresh) \<and>
   reconnectAttempts (run no_parse six_failures fresh) = maxReconnectAttempts \<and>
   count_list (log (run no_parse six_failures (run no_parse six_failures fresh)))
     (SetTimeout reconnectTimeout) = 5 \<and>
   list_all (\<lambda>ev. \<not> is_open_event ev) stale_timer_tail \<and>
   timers opened_with_stale_timer = 1 \<and> reconnectAttempts opened_with_stale_timer = 0 \<and>
   count_list (log opened_with_stale_timer) TimerFired = 0 \<and>
   count_list (log (run no_parse stale_timer_tail opened_with_stale_timer)) TimerFired = 6"
  using reconnect_attempts_bounded [of fresh no_parse "[]" False "()" six_failures]
    reconnect_attempts_bounded [of "run no_parse six_failures fresh" no_parse six_failures False "()"
      six_failures]
    reconnect_attempts_bounded [of opened_with_stale_timer no_parse
      "[SockClose 0, CallSend (ascii ''x''), SockOpen 1]" False "()" stale_timer_tail]
  by (simp add: fresh_def no_parse_def six_failures_def opened_with_stale_timer_def
      stale_timer_tail_def eval_simps)

text \<open>
  The claim as stated fails when a reconnect timer is pending while a socket opens. The
  first handshake fails, a message is sent before the timer fires, and the socket that
  \<open>send\<close> created opens: the counter is zero and one timer is pending. In the continuation
  no socket opens; five sockets close one after the other, and six timers fire, each of
  them calling the constructor: the sixth after the counter has reached five.
\<close>

theorem reconnect_attempts_counterexample:
  "isOpen opened_with_stale_timer \<and>
   reconnectAttempts opened_with_stale_timer = 0 \<and>
   timers opened_with_stale_timer = 1 \<and>
   count_list (log opened_with_stale_timer) TimerFired = 0 \<and>
   count_list (log opened_with_stale_timer) NewWebSocket = 2 \<and>
   list_all (\<lambda>ev. \<not> is_open_event ev) stale_timer_tail \<and>
   reconnectAttempts (run no_parse (take 10 stale_timer_tail) opened_with_stale_timer) = 5 \<and>
   count_list (log (run no_parse (take 10 stale_timer_tail) opened_with_stale_timer)) TimerFired = 5 \<and>
   enabled Timer (run no_parse (take 10 stale_timer_tail) opened_with_stale_timer) \<and>
   count_list (log (run no_parse stale_timer_tail opened_with_stale_timer)) TimerFired = 6 \<and>
   count_list (log (run no_parse stale_timer_tail opened_with_stale_timer)) NewWebSocket = 8"
  by (simp add: fresh_def no_parse_def opened_with_stale_timer_def stale_timer_tail_def eval_simps)

section \<open>Draining the outbound queue on open\<close>

lemma sockets_ok_cong:
  "ws t = ws s \<Longrightarrow> sockets t = sockets s \<Longrightarrow> sockets_ok t = sockets_ok s"
  by (simp add: sockets_ok_def)

lemma sockets_ok_handleReconnect: "sockets_ok (handleReconnect s) = sockets_ok s"
  by (rule sockets_ok_cong) (simp_all add: handleReconnect_def emit_def)

lemma sockets_ok_notify: "sockets_ok (snd (notifyConnectionStatus st s)) = sockets_ok s"
  by (rule sockets_ok_cong) simp_all

lemma sockets_ok_notify_reconnect:
  "sockets_ok (if fst (notifyConnectionStatus st s) = None
               then handleReconnect (snd (notifyConnectionStatus st s))
               else snd (notifyConnectionStatus st s)) = sockets_ok s"
  by (simp add: sockets_ok_handleReconnect sockets_ok_notify)

lemma sockets_okD:
  assumes "sockets_ok s"
  shows "ws s = Some j \<Longrightarrow> j < length (sockets s)"
    and "j < length (sockets s) \<Longrightarrow> sockets s ! j = CONNECTING \<or> sockets s ! j = OPEN \<Longrightarrow> ws s = Some j"
  using assms unfolding sockets_ok_def by blast+

lemma close_sockets:
  "sockets (close s) =
     (case ws s of
        None \<Rightarrow> sockets s
      | Some i \<Rightarrow>
          if i < length (sockets s) \<and> (sockets s ! i = CONNECTING \<or> sockets s ! i = OPEN)
          then (sockets s)[i := CLOSING] else sockets s)"
  by (auto simp: close_def browser_close_def Let_def emit_def split: option.splits)

lemma close_dead:
  assumes "sockets_ok s"
  shows "ws (close s) = None" 
    and "length (sockets (close s)) = length (sockets s)"
    and "j < length (sockets s) \<Longrightarrow> sockets (close s) ! j \<noteq> CONNECTING \<and> sockets (close s) ! j \<noteq> OPEN"
proof -
  show "ws (close s) = None" by (simp add: close_def split: option.splits)
  show "length (sockets (close s)) = length (sockets s)"
    by (simp add: close_sockets split: option.splits)
  show "sockets (close s) ! j \<noteq> CONNECTING \<and> sockets (close s) ! j \<noteq> OPEN" if j: "j < length (sockets s)"
  proof (cases "sockets s ! j = CONNECTING \<or> sockets s ! j = OPEN")
    case True
    with sockets_okD(2) [OF assms j] have "ws s = Some j" by simp
    then show ?thesis using j True by (simp add: close_sockets)
  next
    case False
    then show ?thesis using j
      by (simp add: close_sockets nth_list_update split: option.splits)
  qed
qed

lemma sockets_ok_dead:
  "ws s = None \<Longrightarrow> \<forall>j < length (sockets s). sockets s ! j \<noteq> CONNECTING \<and> sockets s ! j \<noteq> OPEN \<Longrightarrow>
   sockets_ok s"
  by (simp add: sockets_ok_def)

lemma sockets_ok_close: "sockets_ok s \<Longrightarrow> sockets_ok (close s)"
  using close_dead [of s] by (intro sockets_ok_dead) auto

lemma sockets_ok_fresh:
  assumes "\<forall>j < length xs. xs ! j \<noteq> CONNECTING \<and> xs ! j \<noteq> OPEN"
    and "sockets t = xs @ [CONNECTING]" and "ws t = Some (length xs)"
  shows "sockets_ok t"
  unfolding sockets_ok_def
proof (intro conjI allI impI)
  fix j assume "ws t = Some j"
  then show "j < length (sockets t)" using assms(2,3) by simp
next
  fix j assume j: "j < length (sockets t)" and live: "sockets t ! j = CONNECTING \<or> sockets t ! j = OPEN"
  show "ws t = Some j"
  proof (cases "j < length xs")
    case True
    then have "sockets t ! j = xs ! j" using assms(2) by (simp add: nth_append)
    then show ?thesis using assms(1) True live by simp
  next
    case False
    then have "j = length xs" using j assms(2) by simp
    then show ?thesis using assms(3) by simp
  qed
qed

lemma sockets_ok_connect:
  assumes "sockets_ok s"
  shows "sockets_ok (snd (connect s))"
proof (cases "isConnecting s")
  case True
  then show ?thesis using assms by (simp add: connect_def)
next
  case False
  let ?c = "close (s\<lparr>isConnecting := True\<rparr>)"
  have ok1: "sockets_ok (s\<lparr>isConnecting := True\<rparr>)"
    using assms sockets_ok_cong [of "s\<lparr>isConnecting := True\<rparr>" s] by simp
  note d = close_dead [OF ok1]
  have dead: "\<forall>j < length (sockets ?c). sockets ?c ! j \<noteq> CONNECTING \<and> sockets ?c ! j \<noteq> OPEN"
    using d(2,3) by simp
  show ?thesis
  proof (cases "wsBlocked s")
    case True
    have "sockets_ok ((emit NewWebSocket ?c)\<lparr>isConnecting := False\<rparr>)"
      using d(1) dead by (intro sockets_ok_dead) (simp_all add: emit_def)
    then show ?thesis
      using True False by (simp add: connect_alt sockets_ok_notify_reconnect)
  next
    case nb: False
    have "snd (connect s) = (emit NewWebSocket ?c)\<lparr>sockets := sockets ?c @ [CONNECTING],
                ws := Some (length (sockets ?c))\<rparr>"
      using nb False by (simp add: connect_alt)
    moreover have "sockets_ok ((emit NewWebSocket ?c)\<lparr>sockets := sockets ?c @ [CONNECTING],
                ws := Some (length (sockets ?c))\<rparr>)"
      by (rule sockets_ok_fresh [OF dead]) simp_all
    ultimately show ?thesis by (simp only:)
  qed
qed

lemma sockets_ok_update:
  assumes "sockets_ok s" "r = CONNECTING \<or> r = OPEN \<Longrightarrow> ws s = Some i"
    and "ws t = ws s" "sockets t = (sockets s)[i := r]"
  shows "sockets_ok t"
  unfolding sockets_ok_def
proof (intro conjI allI impI)
  fix j assume "ws t = Some j"
  then show "j < length (sockets t)" using sockets_okD(1) [OF assms(1), of j] assms(3,4) by simp
next
  fix j assume j: "j < length (sockets t)" and live: "sockets t ! j = CONNECTING \<or> sockets t ! j = OPEN"
  show "ws t = Some j"
  proof (cases "j = i")
    case True
    then have "sockets t ! j = r" using j assms(4) by simp
    then show ?thesis using live assms(2,3) True by simp
  next
    case False
    then have "sockets t ! j = sockets s ! j" using assms(4) by simp
    then show ?thesis using sockets_okD(2) [OF assms(1), of j] j live assms(3,4) by simp
  qed
qed

lemma sockets_ok_send:
  assumes "sockets_ok s"
  shows "sockets_ok (snd (send d s))"
proof (cases "ws_readyState s = Some OPEN")
  case True
  from send_open [OF True, of d] obtain i where "send d s = (None, emit (WsSend i d) s)" by blast
  then show ?thesis
    using assms sockets_ok_cong [of "emit (WsSend i d) s" s] by (simp add: emit_def)
next
  case False
  let ?s1 = "s\<lparr>messageQueue := messageQueue s @ [d]\<rparr>"
  have "sockets_ok ?s1" using assms sockets_ok_cong [of ?s1 s] by simp
  then have "sockets_ok (snd (connect ?s1))" by (rule sockets_ok_connect)
  then show ?thesis using False \<open>sockets_ok ?s1\<close>
    by (simp add: send_def Let_def)
qed

lemma sockets_ok_processMessageQueue:
  assumes "sockets_ok s"
  shows "sockets_ok (snd (processMessageQueue s))"
proof -
  from processMessageQueue_cases [of s]
  obtain i where "processMessageQueue s = (None, s) \<or>
      processMessageQueue s = (None, s\<lparr>messageQueue := [], log := log s @ map (WsSend i) (messageQueue s)\<rparr>)"
    by blast
  then show ?thesis
    using assms sockets_ok_cong [of "s\<lparr>messageQueue := [], log := log s @ map (WsSend i) (messageQueue s)\<rparr>" s]
    by auto
qed

lemma sockets_ok_step:
  assumes "sockets_ok s"
  shows "sockets_ok (snd (step parse ev s))"
proof (cases "enabled ev s")
  case False
  then show ?thesis using assms by (simp add: step_def)
next
  case True
  show ?thesis
  proof (cases ev)
    case (SockOpen i)
    let ?s0 = "s\<lparr>sockets := (sockets s)[i := OPEN], reconnectAttempts := 0, isConnecting := False\<rparr>"
    have "ws s = Some i" using sockets_okD(2) [OF assms, of i] True SockOpen by simp
    then have "sockets_ok ?s0" by (intro sockets_ok_update [OF assms, of OPEN i]) simp_all
    from sockets_ok_processMessageQueue [OF this]
    show ?thesis using SockOpen True
      by (simp add: step_def onopen_alt sockets_ok_notify)
  next
    case (SockMessage i raw)
    have "sockets_ok (snd (onmessage parse raw s)) = sockets_ok s"
      by (rule sockets_ok_cong) (auto simp: onmessage_def split: option.splits prod.splits)
    then show ?thesis using SockMessage assms True by (simp add: step_def)
  next
    case (SockClose i)
    have "sockets_ok (s\<lparr>sockets := (sockets s)[i := CLOSED], isConnecting := False\<rparr>)"
      by (intro sockets_ok_update [OF assms, of CLOSED i]) simp_all
    then show ?thesis using SockClose True
      by (simp add: step_def onclose_def notify_then_reconnect sockets_ok_notify_reconnect)
  next
    case (SockError i)
    have "sockets_ok (s\<lparr>isConnecting := False\<rparr>)"
      using assms sockets_ok_cong [of "s\<lparr>isConnecting := False\<rparr>" s] by simp
    then show ?thesis using SockError True
      by (simp add: step_def onerror_def sockets_ok_notify)
  next
    case Timer
    have "sockets_ok (emit TimerFired (s\<lparr>timers := timers s - 1\<rparr>))"
      using assms sockets_ok_cong [of "emit TimerFired (s\<lparr>timers := timers s - 1\<rparr>)" s]
      by (simp add: emit_def)
    then show ?thesis using Timer True by (simp add: step_def sockets_ok_connect)
  next
    case (CallSend d)
    then show ?thesis using assms True by (simp add: step_def sockets_ok_send)
  next
    case CallClose
    then show ?thesis using assms True by (simp add: step_def sockets_ok_close)
  next
    case (AddMessageHandler k h)
    then show ?thesis using assms sockets_ok_cong [of "addMessageHandler k h s" s]
      by (simp add: step_def addMessageHandler_def)
  next
    case (RemoveMessageHandler k)
    then show ?thesis using assms sockets_ok_cong [of "removeMessageHandler k s" s]
      by (simp add: step_def removeMessageHandler_def)
  next
    case (AddStatusCallback k c)
    then show ?thesis using assms sockets_ok_cong [of "addConnectionStatusCallback k c s" s]
      by (simp add: step_def addConnectionStatusCallback_def)
  next
    case (RemoveStatusCallback k)
    then show ?thesis using assms sockets_ok_cong [of "removeConnectionStatusCallback k s" s]
      by (simp add: step_def removeConnectionStatusCallback_def)
  qed
qed

lemma sockets_ok_run: "sockets_ok s \<Longrightarrow> sockets_ok (run parse evs s)"
  by (induction evs arbitrary: s) (auto intro: sockets_ok_step)

lemma sockets_ok_new: "sockets_ok (WebSocketService_new blocked v)"
  unfolding WebSocketService_new_def
  by (rule sockets_ok_connect) (simp add: sockets_ok_def)

lemma sockets_ok_reachable: "sockets_ok (run parse evs (WebSocketService_new blocked v))"
  by (simp add: sockets_ok_run sockets_ok_new)

text \<open>
  C2. When the \<open>open\<close> event of a socket arrives in a state the service can reach, the
  handler drains the whole outbound queue within that one event, before it notifies
  anyone: every queued message is transmitted on the socket that opened, exactly once
  and in the order of the queue (which is the order in which \<open>send\<close> appended them),
  nothing is put back, and afterwards the queue is empty and the connection is open. The
  drain throws nothing: an exception leaves the handler only if a status listener throws
  when it is notified afterwards.
\<close>

theorem queue_drained_fifo_on_open:
  assumes "s = run parse evs (WebSocketService_new blocked v)" "enabled (SockOpen i) s"
  shows "\<exists>r s'. step parse (SockOpen i) s = (r, s') \<and>
              messageQueue s' = [] \<and>
              log s' = log s @ map (WsSend i) (messageQueue s) \<and>
              ws s' = Some i \<and> sockets s' ! i = OPEN \<and> isOpen s' \<and>
              r = fst (forEach_callback connected (connectionStatusCallbacks s) (view s))"
proof -
  have ok: "sockets_ok s" using assms(1) by (simp add: sockets_ok_reachable)
  have i: "i < length (sockets s)" "sockets s ! i = CONNECTING" using assms(2) by simp_all
  with sockets_okD(2) [OF ok, of i] have w: "ws s = Some i" by simp
  let ?s0 = "s\<lparr>sockets := (sockets s)[i := OPEN], reconnectAttempts := 0, isConnecting := False\<rparr>"
  let ?s1 = "?s0\<lparr>messageQueue := [], log := log ?s0 @ map (WsSend i) (messageQueue s)\<rparr>"
  have "processMessageQueue ?s0 = (None, ?s1)"
    using i w by (intro processMessageQueue_open) simp_all
  then have st: "step parse (SockOpen i) s = notifyConnectionStatus connected ?s1"
    using assms(2) by (simp add: step_def onopen_alt)
  have "step parse (SockOpen i) s
          = (fst (notifyConnectionStatus connected ?s1), snd (notifyConnectionStatus connected ?s1))"
    unfolding st by simp
  moreover have "messageQueue (snd (notifyConnectionStatus connected ?s1)) = []"
    and "log (snd (notifyConnectionStatus connected ?s1)) = log s @ map (WsSend i) (messageQueue s)"
    and "ws (snd (notifyConnectionStatus connected ?s1)) = Some i"
    and "sockets (snd (notifyConnectionStatus connected ?s1)) ! i = OPEN"
    and "isOpen (snd (notifyConnectionStatus connected ?s1))"
    and "fst (notifyConnectionStatus connected ?s1)
           = fst (forEach_callback connected (connectionStatusCallbacks s) (view s))"
    using i w by (simp_all add: isOpen_def ws_readyState_def notify_result)
  ultimately show ?thesis by blast
qed

theorem queue_drained_fifo_on_open_witness:
  "enabled (SockOpen 0) (run no_parse [CallSend (ascii ''a''), CallSend (ascii ''b'')] fresh) \<and>
   messageQueue (run no_parse [CallSend (ascii ''a''), CallSend (ascii ''b'')] fresh)
     = [ascii ''a'', ascii ''b''] \<and>
   log (run no_parse [CallSend (ascii ''a''), CallSend (ascii ''b''), SockOpen 0] fresh)
     = [NewWebSocket, WsSend 0 (ascii ''a''), WsSend 0 (ascii ''b'')] \<and>
   messageQueue (run no_parse [CallSend (ascii ''a''), CallSend (ascii ''b''), SockOpen 0] fresh) = []"
  using queue_drained_fifo_on_open [of "run no_parse [CallSend (ascii ''a''), CallSend (ascii ''b'')] fresh"
      no_parse "[CallSend (ascii ''a''), CallSend (ascii ''b'')]" False "()" 0]
  by (simp add: fresh_def no_parse_def eval_simps)

section \<open>Sending\<close>

lemma connect_not_connecting:
  assumes "\<not> isConnecting s"
  shows "attempts (snd (connect s)) = attempts s + 1"
    and "messageQueue (snd (connect s)) = messageQueue s"
    and "reconnectAttempts s \<le> reconnectAttempts (snd (connect s))"
    and "\<not> wsBlocked s \<Longrightarrow> fst (connect s) = None \<and>
           isConnecting (snd (connect s)) \<and> ws (snd (connect s)) = Some (length (sockets s)) \<and>
           ws_readyState (snd (connect s)) = Some CONNECTING \<and>
           reconnectAttempts (snd (connect s)) = reconnectAttempts s \<and>
           timers (snd (connect s)) = timers s"
    and "wsBlocked s \<Longrightarrow>
           fst (connect s) = fst (forEach_callback disconnected (connectionStatusCallbacks s) (view s))"
proof -
  show "attempts (snd (connect s)) = attempts s + 1"
    using assms
    by (simp add: connect_alt attempts_def emit_def close_log handleReconnect_def)
  show "messageQueue (snd (connect s)) = messageQueue s"
    using assms by (simp add: connect_alt emit_def)
  show "reconnectAttempts s \<le> reconnectAttempts (snd (connect s))"
    using assms by (simp add: connect_alt emit_def handleReconnect_def)
  show "fst (connect s) = None \<and>
           isConnecting (snd (connect s)) \<and> ws (snd (connect s)) = Some (length (sockets s)) \<and>
           ws_readyState (snd (connect s)) = Some CONNECTING \<and>
           reconnectAttempts (snd (connect s)) = reconnectAttempts s \<and>
           timers (snd (connect s)) = timers s" if "\<not> wsBlocked s"
    using assms that
    by (auto simp: connect_def Let_def emit_def browser_close_def ws_readyState_def
        split: option.splits)
  show "fst (connect s) = fst (forEach_callback disconnected (connectionStatusCallbacks s) (view s))"
    if "wsBlocked s"
    using assms that by (simp add: connect_alt notify_result emit_def)
qed

lemma send_result:
  "fst (send d s)
     = (if \<not> isOpen s \<and> \<not> isConnecting s \<and> wsBlocked s
        then fst (forEach_callback disconnected (connectionStatusCallbacks s) (view s))
        else None)"
proof (cases "isOpen s")
  case True
  then show ?thesis using send_open [of s d] by (auto simp: isOpen_def)
next
  case False
  then show ?thesis
    using connect_not_connecting(4,5) [of "s\<lparr>messageQueue := messageQueue s @ [d]\<rparr>"]
    by (cases "wsBlocked s") (auto simp: send_def isOpen_def Let_def)
qed

lemma send_queues: "\<not> isOpen s \<Longrightarrow> messageQueue (snd (send d s)) = messageQueue s @ [d]"
  using connect_not_connecting(2) [of "s\<lparr>messageQueue := messageQueue s @ [d]\<rparr>"]
  by (auto simp: send_def isOpen_def Let_def)

text \<open>
  C3, as amended. On an open connection \<open>send\<close> transmits the data at once on the current
  socket and returns. Otherwise it appends the data to the end of the outbound queue,
  whatever the length of the queue; if a connection attempt is in flight that is all it
  does, and it returns; if none is in flight it calls \<open>connect\<close>, which calls the
  \<open>WebSocket\<close> constructor once. \<open>send\<close> returns normally in every case but one: when the
  constructor throws and a status listener throws while it is notified of the failure,
  that exception leaves \<open>send\<close>, the data being queued all the same.
\<close>

theorem send_throws_only_from_listener:
  "(isOpen s \<longrightarrow> (\<exists>i. ws s = Some i \<and> send d s = (None, emit (WsSend i d) s))) \<and>
   (\<not> isOpen s \<and> isConnecting s \<longrightarrow>
      send d s = (None, s\<lparr>messageQueue := messageQueue s @ [d]\<rparr>)) \<and>
   (\<not> isOpen s \<and> \<not> isConnecting s \<longrightarrow>
      send d s = connect (s\<lparr>messageQueue := messageQueue s @ [d]\<rparr>) \<and>
      messageQueue (snd (send d s)) = messageQueue s @ [d] \<and>
      count_list (log (snd (send d s))) NewWebSocket = count_list (log s) NewWebSocket + 1) \<and>
   fst (send d s)
     = (if \<not> isOpen s \<and> \<not> isConnecting s \<and> wsBlocked s
        then fst (forEach_callback disconnected (connectionStatusCallbacks s) (view s))
        else None)"
proof (cases "isOpen s")
  case True
  then show ?thesis using send_open [of s d] by (auto simp: isOpen_def)
next
  case False
  let ?s1 = "s\<lparr>messageQueue := messageQueue s @ [d]\<rparr>"
  show ?thesis
  proof (cases "isConnecting s")
    case True
    then show ?thesis using False by (simp add: send_def isOpen_def Let_def)
  next
    case nc: False
    then have nc1: "\<not> isConnecting ?s1" by simp
    have sd: "send d s = connect ?s1" using False nc by (simp add: send_def isOpen_def Let_def)
    show ?thesis
      using False nc connect_not_connecting [OF nc1]
      by (cases "wsBlocked s") (simp_all add: sd attempts_def)
  qed
qed

theorem send_throws_only_from_listener_witness:
  "isOpen (run no_parse [SockOpen 0] fresh) \<and>
   send (ascii ''m'') (run no_parse [SockOpen 0] fresh)
     = (None, emit (WsSend 0 (ascii ''m'')) (run no_parse [SockOpen 0] fresh)) \<and>
   isConnecting fresh \<and> messageQueue (snd (send (ascii ''m'') fresh)) = [ascii ''m''] \<and>
   log (snd (send (ascii ''m'') fresh)) = [NewWebSocket] \<and>
   fst (send (ascii ''m'') (run no_parse [SockError 0] fresh)) = None \<and>
   messageQueue (snd (send (ascii ''m'') (run no_parse [SockError 0] fresh))) = [ascii ''m''] \<and>
   log (snd (send (ascii ''m'') (run no_parse [SockError 0] fresh)))
     = [NewWebSocket, WsClose 0, NewWebSocket] \<and>
   wsBlocked (WebSocketService_new True ()) \<and>
   send (ascii ''m'') (WebSocketService_new True ())
     = connect ((WebSocketService_new True ())\<lparr>messageQueue := [ascii ''m'']\<rparr>) \<and>
   fst (send (ascii ''m'') (WebSocketService_new True ())) = None \<and>
   reconnectAttempts (snd (send (ascii ''m'') (WebSocketService_new True ()))) = 2"
  using send_throws_only_from_listener [of "run no_parse [SockOpen 0] fresh" "ascii ''m''"]
    send_throws_only_from_listener [of fresh "ascii ''m''"]
    send_throws_only_from_listener [of "run no_parse [SockError 0] fresh" "ascii ''m''"]
    send_throws_only_from_listener [of "WebSocketService_new True ()" "ascii ''m''"]
  by (simp add: fresh_def no_parse_def eval_simps)

text \<open>
  The claim as stated fails on a page that may not open the connection, once a status
  listener that throws is registered: \<open>send\<close> queues the data, the constructor throws, the
  \<open>catch\<close> branch of \<open>connect\<close> notifies the listener, and its exception leaves \<open>send\<close>.
\<close>

theorem send_throws_counterexample:
  "\<not> isOpen blocked_failing \<and> \<not> isConnecting blocked_failing \<and> wsBlocked blocked_failing \<and>
   map fst (connectionStatusCallbacks blocked_failing) = [0] \<and>
   fst (send (ascii ''m'') blocked_failing) = Some TypeError \<and>
   messageQueue (snd (send (ascii ''m'') blocked_failing)) = [ascii ''m'']"
  by (simp add: blocked_failing_def failing_callback_def eval_simps)

lemma connect_exhausted:
  assumes "\<not> isConnecting s" "reconnectAttempts s = maxReconnectAttempts"
  shows "reconnectAttempts (snd (connect s)) = maxReconnectAttempts \<and> timers (snd (connect s)) = timers s"
  using assms
  by (simp add: connect_alt emit_def handleReconnect_def)

lemma connect_counter_blind:
  assumes "\<not> isConnecting s"
  shows "ws (snd (connect (s\<lparr>reconnectAttempts := n\<rparr>))) = ws (snd (connect s)) \<and>
         sockets (snd (connect (s\<lparr>reconnectAttempts := n\<rparr>))) = sockets (snd (connect s)) \<and>
         isConnecting (snd (connect (s\<lparr>reconnectAttempts := n\<rparr>))) = isConnecting (snd (connect s)) \<and>
         messageQueue (snd (connect (s\<lparr>reconnectAttempts := n\<rparr>))) = messageQueue (snd (connect s)) \<and>
         attempts (snd (connect (s\<lparr>reconnectAttempts := n\<rparr>))) = attempts (snd (connect s)) \<and>
         fst (connect (s\<lparr>reconnectAttempts := n\<rparr>)) = fst (connect s)"
  using assms
  by (auto simp: connect_def Let_def emit_def handleReconnect_def attempts_def
      notifyConnectionStatus_def browser_close_def split: option.splits prod.splits)

text \<open>
  C10. With the counter of failed attempts at its maximum, the connection not open and no
  attempt in flight, \<open>send\<close> still queues the data and starts a connection attempt: the
  constructor is called once more and, unless the constructor throws, a new socket is
  connecting and \<open>send\<close> returns. The counter stays at the maximum and no timer is
  scheduled. The attempt does not depend on the counter: with any other value of the
  counter \<open>send\<close> leaves the same socket, sockets, flag and queue, calls the constructor as
  often and returns or throws alike.
\<close>

theorem send_connects_after_exhaustion:
  assumes "reconnectAttempts s = maxReconnectAttempts" "\<not> isOpen s" "\<not> isConnecting s"
  shows "fst (send d s)
           = (if wsBlocked s
              then fst (forEach_callback disconnected (connectionStatusCallbacks s) (view s))
              else None) \<and>
         count_list (log (snd (send d s))) NewWebSocket = count_list (log s) NewWebSocket + 1 \<and>
         messageQueue (snd (send d s)) = messageQueue s @ [d] \<and>
         reconnectAttempts (snd (send d s)) = maxReconnectAttempts \<and>
         timers (snd (send d s)) = timers s \<and>
         (\<not> wsBlocked s \<longrightarrow>
            isConnecting (snd (send d s)) \<and> ws (snd (send d s)) = Some (length (sockets s)) \<and>
            ws_readyState (snd (send d s)) = Some CONNECTING) \<and>
         (\<forall>n. ws (snd (send d (s\<lparr>reconnectAttempts := n\<rparr>))) = ws (snd (send d s)) \<and>
              sockets (snd (send d (s\<lparr>reconnectAttempts := n\<rparr>))) = sockets (snd (send d s)) \<and>
              isConnecting (snd (send d (s\<lparr>reconnectAttempts := n\<rparr>))) = isConnecting (snd (send d s)) \<and>
              messageQueue (snd (send d (s\<lparr>reconnectAttempts := n\<rparr>))) = messageQueue (snd (send d s)) \<and>
              count_list (log (snd (send d (s\<lparr>reconnectAttempts := n\<rparr>)))) NewWebSocket
                = count_list (log (snd (send d s))) NewWebSocket \<and>
              fst (send d (s\<lparr>reconnectAttempts := n\<rparr>)) = fst (send d s))"
proof -
  let ?s1 = "s\<lparr>messageQueue := messageQueue s @ [d]\<rparr>"
  have nc: "\<not> isConnecting ?s1" using assms by simp
  have sd: "send d s = connect ?s1"
    using assms by (simp add: send_def isOpen_def Let_def)
  have sdn: "send d (s\<lparr>reconnectAttempts := n\<rparr>) = connect (?s1\<lparr>reconnectAttempts := n\<rparr>)" for n
  proof -
    have "s\<lparr>reconnectAttempts := n, messageQueue := messageQueue s @ [d]\<rparr> = ?s1\<lparr>reconnectAttempts := n\<rparr>"
      by (cases s) simp
    moreover have "send d (s\<lparr>reconnectAttempts := n\<rparr>) =
        connect (s\<lparr>reconnectAttempts := n, messageQueue := messageQueue s @ [d]\<rparr>)"
      using assms by (simp add: send_def isOpen_def Let_def)
    ultimately show ?thesis by (simp only:)
  qed
  have ex: "reconnectAttempts (snd (connect ?s1)) = maxReconnectAttempts \<and>
            timers (snd (connect ?s1)) = timers s"
    using connect_exhausted [OF nc] assms by simp
  show ?thesis
    unfolding sd sdn
    using connect_not_connecting [OF nc] connect_counter_blind [OF nc] ex
    by (cases "wsBlocked s") (simp_all add: attempts_def)
qed

theorem send_connects_after_exhaustion_witness:
  "reconnectAttempts (run no_parse six_failures fresh) = maxReconnectAttempts \<and>
   \<not> isOpen (run no_parse six_failures fresh) \<and>
   \<not> isConnecting (run no_parse six_failures fresh) \<and>
   timers (run no_parse six_failures fresh) = 0 \<and>
   fst (send (ascii ''m'') (run no_parse six_failures fresh)) = None \<and>
   ws (snd (send (ascii ''m'') (run no_parse six_failures fresh))) = Some 6 \<and>
   ws_readyState (snd (send (ascii ''m'') (run no_parse six_failures fresh))) = Some CONNECTING \<and>
   reconnectAttempts (snd (send (ascii ''m'') (run no_parse six_failures fresh))) = 5 \<and>
   timers (snd (send (ascii ''m'') (run no_parse six_failures fresh))) = 0"
  using send_connects_after_exhaustion [of "run no_parse six_failures fresh" "ascii ''m''"]
  by (simp add: fresh_def no_parse_def six_failures_def eval_simps)

section \<open>The counter of failed attempts\<close>

lemma handleReconnect_mono: "reconnectAttempts s \<le> reconnectAttempts (handleReconnect s)"
  by (simp add: handleReconnect_def emit_def)

lemma notify_reconnect_mono:
  "reconnectAttempts s \<le> reconnectAttempts
     (if fst (notifyConnectionStatus st s) = None
      then handleReconnect (snd (notifyConnectionStatus st s))
      else snd (notifyConnectionStatus st s))"
  using handleReconnect_mono [of "snd (notifyConnectionStatus st s)"] by simp

lemma connect_mono: "reconnectAttempts s \<le> reconnectAttempts (snd (connect s))"
  using notify_reconnect_mono [of "(emit NewWebSocket (close (s\<lparr>isConnecting := True\<rparr>)))\<lparr>isConnecting := False\<rparr>"
      disconnected]
  by (simp add: connect_alt emit_def)

lemma send_mono: "reconnectAttempts s \<le> reconnectAttempts (snd (send d s))"
proof (cases "ws_readyState s = Some OPEN")
  case True
  then show ?thesis using send_open [of s d] by (auto simp: emit_def)
next
  case False
  then show ?thesis
    using connect_mono [of "s\<lparr>messageQueue := messageQueue s @ [d]\<rparr>"]
    by (auto simp: send_def Let_def)
qed

text \<open>
  C4. The \<open>open\<close> event of a socket sets the counter of failed attempts to zero, and no
  other event (socket event, timer, or call from the view) ever decreases it.
\<close>

theorem counter_resets_only_on_open:
  "(enabled (SockOpen i) s \<longrightarrow> reconnectAttempts (snd (step parse (SockOpen i) s)) = 0) \<and>
   (\<not> (is_open_event ev \<and> enabled ev s) \<longrightarrow>
      reconnectAttempts s \<le> reconnectAttempts (snd (step parse ev s)))"
proof
  show "enabled (SockOpen i) s \<longrightarrow> reconnectAttempts (snd (step parse (SockOpen i) s)) = 0"
    by (simp add: step_def onopen_counter)
next
  show "\<not> (is_open_event ev \<and> enabled ev s) \<longrightarrow>
      reconnectAttempts s \<le> reconnectAttempts (snd (step parse ev s))"
  proof (cases "enabled ev s")
    case False
    then show ?thesis by (simp add: step_def)
  next
    case True
    show ?thesis
    proof (cases ev)
      case (SockMessage j raw)
      then show ?thesis using True
        by (auto simp: step_def onmessage_def split: option.splits prod.splits)
    next
      case (SockClose j)
      then show ?thesis using True
        notify_reconnect_mono [of "s\<lparr>sockets := (sockets s)[j := CLOSED], isConnecting := False\<rparr>"
            disconnected]
        by (simp add: step_def onclose_def notify_then_reconnect)
    next
      case (SockError j)
      then show ?thesis using True by (simp add: step_def onerror_def)
    next
      case Timer
      then show ?thesis using True connect_mono [of "emit TimerFired (s\<lparr>timers := timers s - 1\<rparr>)"]
        by (simp add: step_def emit_def)
    next
      case (CallSend d)
      then show ?thesis using True by (simp add: step_def send_mono)
    qed (use True in \<open>auto simp: step_def addMessageHandler_def removeMessageHandler_def
          addConnectionStatusCallback_def removeConnectionStatusCallback_def\<close>)
  qed
qed

theorem counter_resets_only_on_open_witness:
  "enabled (SockOpen 1) (run no_parse [SockClose 0, Timer] fresh) \<and>
   reconnectAttempts (run no_parse [SockClose 0, Timer] fresh) = 1 \<and>
   reconnectAttempts (snd (step no_parse (SockOpen 1) (run no_parse [SockClose 0, Timer] fresh))) = 0 \<and>
   reconnectAttempts (snd (step no_parse (SockClose 1) (run no_parse [SockClose 0, Timer] fresh))) = 2"
  using counter_resets_only_on_open [of 1 "run no_parse [SockClose 0, Timer] fresh" no_parse "SockClose 1"]
  by (simp add: fresh_def no_parse_def eval_simps)

section \<open>Inbound frames\<close>

lemma forEach_ok:
  "fst (forEach_handler d hs v) = None \<Longrightarrow> forEach_handler d hs v = (None, deliver_all d hs v)"
proof (induction hs arbitrary: v)
  case Nil
  then show ?case by (simp add: deliver_all_def)
next
  case (Cons h hs)
  obtain r v' where hv: "snd h d v = (r, v')" by (cases "snd h d v")
  show ?case
  proof (cases r)
    case None
    with Cons.prems hv have "fst (forEach_handler d hs v') = None" by simp
    from Cons.IH [OF this] show ?thesis using hv None by (simp add: deliver_all_def)
  next
    case (Some e)
    with Cons.prems hv show ?thesis by simp
  qed
qed

text \<open>
  C6, as amended. \<open>onmessage\<close> first decodes the frame. If decoding succeeds and no listener
  throws on the decoded value, every listener is called with the decoded value, in the
  order of registration, and the handler returns normally. If decoding fails and no
  listener throws on the raw payload, every listener is called with the raw payload,
  unchanged, and the handler returns normally.
\<close>

theorem onmessage_delivery:
  "(parse f = Some d \<and> fst (forEach_handler d (messageHandlers s) (view s)) = None \<longrightarrow>
      onmessage parse f s = (None, s\<lparr>view := deliver_all d (messageHandlers s) (view s)\<rparr>)) \<and>
   (parse f = None \<and> fst (forEach_handler (event_data f) (messageHandlers s) (view s)) = None \<longrightarrow>
      onmessage parse f s
        = (None, s\<lparr>view := deliver_all (event_data f) (messageHandlers s) (view s)\<rparr>))"
proof (intro conjI impI)
  assume "parse f = Some d \<and> fst (forEach_handler d (messageHandlers s) (view s)) = None"
  then show "onmessage parse f s = (None, s\<lparr>view := deliver_all d (messageHandlers s) (view s)\<rparr>)"
    using forEach_ok [of d "messageHandlers s" "view s"] by (simp add: onmessage_def)
next
  assume "parse f = None \<and> fst (forEach_handler (event_data f) (messageHandlers s) (view s)) = None"
  then show "onmessage parse f s
        = (None, s\<lparr>view := deliver_all (event_data f) (messageHandlers s) (view s)\<rparr>)"
    using forEach_ok [of "event_data f" "messageHandlers s" "view s"] by (simp add: onmessage_def)
qed

theorem onmessage_delivery_witness:
  "parse_null (TextFrame (ascii ''null'')) = Some JNull \<and>
   fst (forEach_handler JNull (messageHandlers one_listener) (view one_listener)) = None \<and>
   onmessage parse_null (TextFrame (ascii ''null'')) one_listener
     = (None, one_listener\<lparr>view := (waiting, [JNull])\<rparr>) \<and>
   parse_null (TextFrame (ascii ''not-json'')) = None \<and>
   fst (forEach_handler (JStr (ascii ''not-json'')) (messageHandlers one_listener) (view one_listener))
     = None \<and>
   onmessage parse_null (TextFrame (ascii ''not-json'')) one_listener
     = (None, one_listener\<lparr>view := (waiting, [JStr (ascii ''not-json'')])\<rparr>) \<and>
   onmessage parse_null (BinaryFrame [1, 2]) one_listener
     = (None, one_listener\<lparr>view := (waiting, [JBlob [1, 2]])\<rparr>)"
  using onmessage_delivery [of parse_null "TextFrame (ascii ''null'')" JNull one_listener]
    onmessage_delivery [of parse_null "TextFrame (ascii ''not-json'')" _ one_listener]
    onmessage_delivery [of parse_null "BinaryFrame [1, 2]" _ one_listener]
  by (simp add: one_listener_def log_listener_def parse_null_def deliver_all_def ascii_def
      eval_simps)

text \<open>
  The claim as stated fails when a listener throws, the listeners not being isolated
  from each other. With a listener that throws registered before a recording listener,
  a frame that does not decode reaches the first listener only, and the handler throws.
  With the chat's \<open>handleMessage\<close> registered before the recording listener, the frame
  \<open>null\<close> decodes to \<open>null\<close>, on which \<open>handleMessage\<close> throws: the recording listener never
  gets the decoded value.
\<close>

theorem onmessage_delivery_counterexample:
  "parse_null (TextFrame (ascii ''not-json'')) = None \<and>
   map fst (messageHandlers failing_first) = [0, 1] \<and>
   fst (onmessage parse_null (TextFrame (ascii ''not-json'')) failing_first) = Some TypeError \<and>
   snd (view (snd (onmessage parse_null (TextFrame (ascii ''not-json'')) failing_first))) = [] \<and>
   parse_null (TextFrame (ascii ''null'')) = Some JNull \<and>
   map fst (messageHandlers two_listeners) = [0, 1] \<and>
   snd (deliver_all JNull (messageHandlers two_listeners) (view two_listeners)) = [JNull] \<and>
   JNull \<notin> set (snd (view (snd (onmessage parse_null (TextFrame (ascii ''null'')) two_listeners))))"
  by (simp add: failing_first_def two_listeners_def chat_listener_def log_listener_def
      failing_listener_def parse_null_def deliver_all_def waiting_def example_js_def
      example_ToString_def example_quote_def ascii_def chat_simps eval_simps)

section \<open>Rendering a reply\<close>

text \<open>
  C5, as amended. For every payload other than \<open>null\<close>, \<open>handleMessage\<close> selects exactly one
  of five cases, the first that applies: (1) \<open>type\<close> is \<open>welcome\<close>: the reply is the \<open>content\<close>
  field; (2) else \<open>status\<close> is \<open>error\<close>: the reply is the error prefix followed by the
  \<open>message\<close> field converted to a string, provided the conversion does not throw; (3) else
  \<open>status\<close> is \<open>success\<close>: the reply is the upload confirmation naming \<open>filename\<close> when \<open>type\<close>
  is \<open>file\<close>, provided \<open>filename\<close> converts to a string, and the \<open>message\<close> field otherwise;
  (4) else a \<open>message\<close> field that JavaScript counts as true (present and not \<open>null\<close>,
  \<open>false\<close>, zero, \<open>NaN\<close> or the empty string): the reply is that field; (5) otherwise the
  reply is the whole payload, stringified. The handler then returns normally, having
  appended exactly that reply.
\<close>

theorem handleMessage_cases:
  assumes "data \<noteq> JNull"
  shows
  "(property data (ascii ''type'') = Some (JStr (ascii ''welcome'')) \<longrightarrow>
      handleMessage js now data u = (None, show_reply now (property data (ascii ''content'')) u)) \<and>
   (property data (ascii ''type'') \<noteq> Some (JStr (ascii ''welcome'')) \<and>
    property data (ascii ''status'') = Some (JStr (ascii ''error'')) \<and>
    ToString js (property data (ascii ''message'')) = Inr t \<longrightarrow>
      handleMessage js now data u = (None, show_reply now (Some (JStr (error_prefix @ t))) u)) \<and>
   (property data (ascii ''type'') = Some (JStr (ascii ''file'')) \<and>
    property data (ascii ''status'') = Some (JStr (ascii ''success'')) \<and>
    ToString js (property data (ascii ''filename'')) = Inr t' \<longrightarrow>
      handleMessage js now data u = (None, show_reply now (Some (JStr (upload_prefix @ t'))) u)) \<and>
   (property data (ascii ''type'') \<noteq> Some (JStr (ascii ''welcome'')) \<and>
    property data (ascii ''type'') \<noteq> Some (JStr (ascii ''file'')) \<and>
    property data (ascii ''status'') = Some (JStr (ascii ''success'')) \<longrightarrow>
      handleMessage js now data u = (None, show_reply now (property data (ascii ''message'')) u)) \<and>
   (property data (ascii ''type'') \<noteq> Some (JStr (ascii ''welcome'')) \<and>
    property data (ascii ''status'') \<noteq> Some (JStr (ascii ''error'')) \<and>
    property data (ascii ''status'') \<noteq> Some (JStr (ascii ''success'')) \<and>
    truthy (property data (ascii ''message'')) \<longrightarrow>
      handleMessage js now data u = (None, show_reply now (property data (ascii ''message'')) u)) \<and>
   (property data (ascii ''type'') \<noteq> Some (JStr (ascii ''welcome'')) \<and>
    property data (ascii ''status'') \<noteq> Some (JStr (ascii ''error'')) \<and>
    property data (ascii ''status'') \<noteq> Some (JStr (ascii ''success'')) \<and>
    \<not> truthy (property data (ascii ''message'')) \<longrightarrow>
      handleMessage js now data u = (None, show_reply now (Some (JStr (JSON_stringify js data))) u)) \<and>
   length (filter (\<lambda>b. b)
      [property data (ascii ''type'') = Some (JStr (ascii ''welcome'')),
       property data (ascii ''type'') \<noteq> Some (JStr (ascii ''welcome'')) \<and>
         property data (ascii ''status'') = Some (JStr (ascii ''error'')),
       property data (ascii ''type'') \<noteq> Some (JStr (ascii ''welcome'')) \<and>
         property data (ascii ''status'') = Some (JStr (ascii ''success'')),
       property data (ascii ''type'') \<noteq> Some (JStr (ascii ''welcome'')) \<and>
         property data (ascii ''status'') \<noteq> Some (JStr (ascii ''error'')) \<and>
         property data (ascii ''status'') \<noteq> Some (JStr (ascii ''success'')) \<and>
         truthy (property data (ascii ''message'')),
       property data (ascii ''type'') \<noteq> Some (JStr (ascii ''welcome'')) \<and>
         property data (ascii ''status'') \<noteq> Some (JStr (ascii ''error'')) \<and>
         property data (ascii ''status'') \<noteq> Some (JStr (ascii ''success'')) \<and>
         \<not> truthy (property data (ascii ''message''))]) = 1"
proof -
  have ne: "ascii ''error'' \<noteq> ascii ''success''" "ascii ''welcome'' \<noteq> ascii ''file''"
    by (simp_all add: ascii_def)
  have cases: "handleMessage js now data u =
     (if property data (ascii ''type'') = Some (JStr (ascii ''welcome''))
        then (None, show_reply now (property data (ascii ''content'')) u)
      else if property data (ascii ''status'') = Some (JStr (ascii ''error''))
        then show_template js now error_prefix (property data (ascii ''message'')) u
      else if property data (ascii ''status'') = Some (JStr (ascii ''success''))
        then (if property data (ascii ''type'') = Some (JStr (ascii ''file''))
              then show_template js now upload_prefix (property data (ascii ''filename'')) u
              else (None, show_reply now (property data (ascii ''message'')) u))
      else if truthy (property data (ascii ''message''))
        then (None, show_reply now (property data (ascii ''message'')) u)
      else (None, show_reply now (Some (JStr (JSON_stringify js data))) u))"
    using assms by (simp add: handleMessage_def)
  show ?thesis
    unfolding cases using ne by (auto simp: show_template_def)
qed

theorem handleMessage_cases_witness:
  "handleMessage example_js 7 (JObj [(ascii ''type'', JStr (ascii ''welcome'')),
                                     (ascii ''content'', JStr (ascii ''hi''))]) waiting
     = (None, show_reply 7 (Some (JStr (ascii ''hi''))) waiting) \<and>
   handleMessage example_js 7 (JObj [(ascii ''status'', JStr (ascii ''error'')),
                                     (ascii ''message'', JStr (ascii ''bad input''))]) waiting
     = (None, show_reply 7 (Some (JStr (error_prefix @ ascii ''bad input''))) waiting) \<and>
   handleMessage example_js 7 (JObj [(ascii ''status'', JStr (ascii ''success'')),
                                     (ascii ''type'', JStr (ascii ''file'')),
                                     (ascii ''filename'', JStr (ascii ''notes.pdf''))]) waiting
     = (None, show_reply 7 (Some (JStr (upload_prefix @ ascii ''notes.pdf''))) waiting) \<and>
   handleMessage example_js 7 (JObj [(ascii ''status'', JStr (ascii ''success'')),
                                     (ascii ''message'', JStr (ascii ''done''))]) waiting
     = (None, show_reply 7 (Some (JStr (ascii ''done''))) waiting) \<and>
   handleMessage example_js 7 (JObj [(ascii ''message'', JStr (ascii ''hello''))]) waiting
     = (None, show_reply 7 (Some (JStr (ascii ''hello''))) waiting) \<and>
   handleMessage example_js 7 (JStr (ascii ''not-json'')) waiting
     = (None, show_reply 7 (Some (JStr (ascii ''\"not-json\"''))) waiting) \<and>
   handleMessage example_js 7 (JObj [(ascii ''answer'', JNum (Double 42 0))]) waiting
     = (None, \<lparr>messages = [\<lparr>msg_id = 7, msg_text = Some (JStr (ascii ''{\"answer\":42}'')),
                               isUser = False\<rparr>],
               isLoading = False\<rparr>)"
  using handleMessage_cases [of "JObj [(ascii ''type'', JStr (ascii ''welcome'')),
                                     (ascii ''content'', JStr (ascii ''hi''))]" example_js 7 waiting]
    handleMessage_cases [of "JObj [(ascii ''status'', JStr (ascii ''error'')),
                                     (ascii ''message'', JStr (ascii ''bad input''))]" example_js
       7 waiting "ascii ''bad input''"]
    handleMessage_cases [of "JObj [(ascii ''status'', JStr (ascii ''success'')),
                                     (ascii ''type'', JStr (ascii ''file'')),
                                     (ascii ''filename'', JStr (ascii ''notes.pdf''))]" example_js
       7 waiting _ "ascii ''notes.pdf''"]
    handleMessage_cases [of "JObj [(ascii ''status'', JStr (ascii ''success'')),
                                     (ascii ''message'', JStr (ascii ''done''))]" example_js 7 waiting]
    handleMessage_cases [of "JObj [(ascii ''message'', JStr (ascii ''hello''))]" example_js 7 waiting]
    handleMessage_cases [of "JStr (ascii ''not-json'')" example_js 7 waiting]
    handleMessage_cases [of "JObj [(ascii ''answer'', JNum (Double 42 0))]" example_js 7 waiting]
  by (simp add: waiting_def example_js_def example_ToString_def example_quote_def
      example_number_def digits.simps ascii_def chat_simps)

text \<open>
  The claim as stated fails on a payload whose \<open>message\<close> field is present and empty: case
  (4) does not render it, case (5) stringifies the payload. On the payload \<open>null\<close> no case
  applies: reading \<open>data.type\<close> throws. And in case (2) nothing is rendered when the
  \<open>message\<close> field is an object with a key \<open>toString\<close>: the template literal throws.
\<close>

theorem handleMessage_counterexample:
  "property (JObj [(ascii ''message'', JStr [])]) (ascii ''type'') = None \<and>
   property (JObj [(ascii ''message'', JStr [])]) (ascii ''status'') = None \<and>
   property (JObj [(ascii ''message'', JStr [])]) (ascii ''message'') = Some (JStr []) \<and>
   handleMessage example_js 7 (JObj [(ascii ''message'', JStr [])]) waiting
     = (None, show_reply 7 (Some (JStr (ascii ''{\"message\":\"\"}''))) waiting) \<and>
   handleMessage example_js 7 (JObj [(ascii ''message'', JStr [])]) waiting
     \<noteq> (None, show_reply 7 (Some (JStr [])) waiting) \<and>
   handleMessage example_js 7 JNull waiting = (Some TypeError, waiting) \<and>
   handleMessage example_js 7
       (JObj [(ascii ''status'', JStr (ascii ''error'')),
              (ascii ''message'', JObj [(ascii ''toString'', JNull)])]) waiting
     = (Some TypeError, waiting\<lparr>isLoading := False\<rparr>)"
  by (simp add: waiting_def example_js_def example_ToString_def example_quote_def
      ascii_def chat_simps)

section \<open>Building the envelope\<close>

lemma settle_send:
  "(case send m s of (r, s') \<Rightarrow> (settle r, s')) = (settle (fst (send m s)), snd (send m s))"
  by (cases "send m s") simp

text \<open>
  C7, as amended. Without a file, \<open>sendMessage\<close> hands to \<open>send\<close> the serialised envelope
  with the text of the call and \<open>null\<close> for \<open>fileData\<close>, \<open>filename\<close>, \<open>fileType\<close> and \<open>fileSize\<close>.
  With a file, the promise is pending while the file is read; when the reader has loaded,
  the envelope handed to \<open>send\<close> carries the reader's result as \<open>fileData\<close> (a string, never
  \<open>null\<close>) and the file's name, type and size. In both cases the promise is settled when
  \<open>send\<close> is left: resolved if \<open>send\<close> returns, also when it has only appended the envelope
  to the outbound queue, and rejected if \<open>send\<close> throws, which it does only when the
  connection is not open, no attempt is in flight, the constructor throws and a status
  listener throws on being notified; the envelope is queued all the same.
\<close>

theorem sendMessage_envelope:
  "(data_file d = None \<longrightarrow>
      sendMessage js mode d s
        = (settle (if \<not> isOpen s \<and> \<not> isConnecting s \<and> wsBlocked s
                   then fst (forEach_callback disconnected (connectionStatusCallbacks s) (view s))
                   else None),
           snd (send (JSON_stringify js (envelope_json
                  \<lparr>env_text = data_text d, fileData = None, filename = None,
                   fileType = None, fileSize = None\<rparr>)) s)) \<and>
      (\<not> isOpen s \<longrightarrow>
         messageQueue (snd (sendMessage js mode d s))
           = messageQueue s @ [JSON_stringify js (envelope_json
                  \<lparr>env_text = data_text d, fileData = None, filename = None,
                   fileType = None, fileSize = None\<rparr>)])) \<and>
   (data_file d = Some f \<longrightarrow>
      sendMessage js mode d s = (Reading (att_data f), s) \<and>
      reader_onload js r d s'
        = (settle (if \<not> isOpen s' \<and> \<not> isConnecting s' \<and> wsBlocked s'
                   then fst (forEach_callback disconnected (connectionStatusCallbacks s') (view s'))
                   else None),
           snd (send (JSON_stringify js (envelope_json
                  \<lparr>env_text = data_text d, fileData = Some r, filename = Some (att_name f),
                   fileType = Some (att_type f), fileSize = Some (att_size f)\<rparr>)) s')) \<and>
      (\<not> isOpen s' \<longrightarrow>
         messageQueue (snd (reader_onload js r d s'))
           = messageQueue s' @ [JSON_stringify js (envelope_json
                  \<lparr>env_text = data_text d, fileData = Some r, filename = Some (att_name f),
                   fileType = Some (att_type f), fileSize = Some (att_size f)\<rparr>)]))"
proof (intro conjI impI)
  let ?m = "JSON_stringify js (envelope_json
                  \<lparr>env_text = data_text d, fileData = None, filename = None,
                   fileType = None, fileSize = None\<rparr>)"
  assume nf: "data_file d = None"
  have r: "fst (send ?m s) = (if \<not> isOpen s \<and> \<not> isConnecting s \<and> wsBlocked s
                   then fst (forEach_callback disconnected (connectionStatusCallbacks s) (view s))
                   else None)"
    by (rule send_result)
  have 1: "sendMessage js mode d s = (settle (fst (send ?m s)), snd (send ?m s))"
    using nf by (simp add: sendMessage_def settle_send Let_def)
  then show "sendMessage js mode d s
        = (settle (if \<not> isOpen s \<and> \<not> isConnecting s \<and> wsBlocked s
                   then fst (forEach_callback disconnected (connectionStatusCallbacks s) (view s))
                   else None), snd (send ?m s))"
    by (simp only: r)
  show "messageQueue (snd (sendMessage js mode d s)) = messageQueue s @ [?m]" if "\<not> isOpen s"
    using that 1 send_queues [of s ?m] by simp
next
  assume f: "data_file d = Some f"
  let ?m = "JSON_stringify js (envelope_json
                  \<lparr>env_text = data_text d, fileData = Some r, filename = Some (att_name f),
                   fileType = Some (att_type f), fileSize = Some (att_size f)\<rparr>)"
  show "sendMessage js mode d s = (Reading (att_data f), s)"
    using f by (simp add: sendMessage_def)
  have r: "fst (send ?m s') = (if \<not> isOpen s' \<and> \<not> isConnecting s' \<and> wsBlocked s'
                   then fst (forEach_callback disconnected (connectionStatusCallbacks s') (view s'))
                   else None)"
    by (rule send_result)
  have 2: "reader_onload js r d s' = (settle (fst (send ?m s')), snd (send ?m s'))"
    using f by (simp add: reader_onload_def settle_send Let_def)
  then show "reader_onload js r d s'
        = (settle (if \<not> isOpen s' \<and> \<not> isConnecting s' \<and> wsBlocked s'
                   then fst (forEach_callback disconnected (connectionStatusCallbacks s') (view s'))
                   else None), snd (send ?m s'))"
    by (simp only: r)
  show "messageQueue (snd (reader_onload js r d s')) = messageQueue s' @ [?m]" if "\<not> isOpen s'"
    using that 2 send_queues [of s' ?m] by simp
qed

theorem sendMessage_envelope_witness:
  "\<not> isOpen fresh \<and>
   fst (sendMessage example_js PPT_update \<lparr>data_text = ascii ''hello'', data_file = None\<rparr> fresh)
     = Resolved \<and>
   messageQueue (snd (sendMessage example_js PPT_update
        \<lparr>data_text = ascii ''hello'', data_file = None\<rparr> fresh))
     = [ascii ''{\"text\":\"hello\",\"fileData\":null,\"filename\":null,\"fileType\":null,\"fileSize\":null}''] \<and>
   log (snd (step no_parse (SockOpen 0)
          (snd (sendMessage example_js PPT_update
             \<lparr>data_text = ascii ''hello'', data_file = None\<rparr> fresh))))
     = [NewWebSocket, WsSend 0
         (ascii ''{\"text\":\"hello\",\"fileData\":null,\"filename\":null,\"fileType\":null,\"fileSize\":null}'')] \<and>
   messageQueue (snd (step no_parse (SockOpen 0)
          (snd (sendMessage example_js PPT_update
             \<lparr>data_text = ascii ''hello'', data_file = None\<rparr> fresh)))) = [] \<and>
   sendMessage example_js lesson_plan
       \<lparr>data_text = ascii ''see'',
        data_file = Some \<lparr>att_name = ascii ''a.txt'', att_type = ascii ''text/plain'',
                          att_size = Double 2 0, att_data = [104, 105]\<rparr>\<rparr> fresh
     = (Reading [104, 105], fresh) \<and>
   fst (reader_onload example_js (ascii ''data:application/octet-stream;base64,aGk='')
       \<lparr>data_text = ascii ''see'',
        data_file = Some \<lparr>att_name = ascii ''a.txt'', att_type = ascii ''text/plain'',
                          att_size = Double 2 0, att_data = [104, 105]\<rparr>\<rparr> fresh) = Resolved \<and>
   messageQueue (snd (reader_onload example_js (ascii ''data:application/octet-stream;base64,aGk='')
       \<lparr>data_text = ascii ''see'',
        data_file = Some \<lparr>att_name = ascii ''a.txt'', att_type = ascii ''text/plain'',
                          att_size = Double 2 0, att_data = [104, 105]\<rparr>\<rparr> fresh))
     = [ascii ''{\"text\":\"see\",\"fileData\":\"data:application/octet-stream;base64,aGk=\",\"filename\":\"a.txt\",\"fileType\":\"text/plain\",\"fileSize\":2}'']"
  using sendMessage_envelope [of "\<lparr>data_text = ascii ''hello'', data_file = None\<rparr>"
        example_js PPT_update fresh]
    sendMessage_envelope [of "\<lparr>data_text = ascii ''see'',
        data_file = Some \<lparr>att_name = ascii ''a.txt'', att_type = ascii ''text/plain'',
                          att_size = Double 2 0, att_data = [104, 105]\<rparr>\<rparr>" example_js lesson_plan fresh
        "\<lparr>att_name = ascii ''a.txt'', att_type = ascii ''text/plain'', att_size = Double 2 0,
          att_data = [104, 105]\<rparr>"
        "ascii ''data:application/octet-stream;base64,aGk=''" fresh]
  by (simp add: fresh_def no_parse_def example_js_def example_quote_def example_number_def
      digits.simps ascii_def envelope_simps eval_simps)

text \<open>
  The claim as stated fails on a page that may not open the connection, once a status
  listener that throws is registered: the envelope is queued, and the promise is
  rejected.
\<close>

theorem sendMessage_rejected_counterexample:
  "\<not> isOpen blocked_failing \<and>
   fst (sendMessage example_js PPT_update \<lparr>data_text = ascii ''hello'', data_file = None\<rparr>
          blocked_failing) = Rejected TypeError \<and>
   messageQueue (snd (sendMessage example_js PPT_update
          \<lparr>data_text = ascii ''hello'', data_file = None\<rparr> blocked_failing))
     = [ascii ''{\"text\":\"hello\",\"fileData\":null,\"filename\":null,\"fileType\":null,\"fileSize\":null}'']"
  by (simp add: blocked_failing_def failing_callback_def example_js_def example_quote_def
      ascii_def envelope_simps eval_simps)

text \<open>
  C8. \<open>sendMessage\<close> does not use its \<open>mode\<close> argument: two calls that differ in the mode
  only return the same promise and leave the same state, so the same envelope is sent or
  queued. (The reader's \<open>onload\<close> has no mode to look at.)
\<close>

theorem sendMessage_ignores_mode:
  "sendMessage js mode1 d s = sendMessage js mode2 d s"
  by (simp add: sendMessage_def)

section \<open>The status of the hook\<close>

lemma getConnectionStatus_new: "getConnectionStatus (WebSocketService_new blocked v) = disconnected"
  by (simp add: WebSocketService_new_def getConnectionStatus_def ws_readyState_def connect_def
      Let_def emit_def handleReconnect_def notifyConnectionStatus_def)

lemma view_new: "view (WebSocketService_new blocked v) = v"
  by (simp add: WebSocketService_new_def connect_def
      Let_def emit_def handleReconnect_def notifyConnectionStatus_def)

lemma notify_only_setStatus:
  "connectionStatusCallbacks s = [(k, setStatus)] \<Longrightarrow> view (snd (notifyConnectionStatus st s)) = st"
  by (simp add: notify_result setStatus_def)

lemma notify_nobody:
  "connectionStatusCallbacks s = [] \<Longrightarrow> view (snd (notifyConnectionStatus st s)) = view s"
  by (simp add: notify_result)

lemma processMessageQueue_listeners:
  "connectionStatusCallbacks (snd (processMessageQueue s)) = connectionStatusCallbacks s"
  "view (snd (processMessageQueue s)) = view s"
  using processMessageQueue_cases [of s] by auto

lemma open_event_view:
  assumes "enabled (SockOpen i) s"
  shows "view (snd (step parse (SockOpen i) s))
           = view (snd (notifyConnectionStatus connected
                (snd (processMessageQueue
                   (s\<lparr>sockets := (sockets s)[i := OPEN], reconnectAttempts := 0,
                      isConnecting := False\<rparr>)))))"
  using assms by (simp add: step_def onopen_alt)

lemma close_event_view:
  assumes "enabled (SockClose i) s"
  shows "view (snd (step parse (SockClose i) s))
           = view (snd (notifyConnectionStatus disconnected
                (s\<lparr>sockets := (sockets s)[i := CLOSED], isConnecting := False\<rparr>)))"
  using assms by (simp add: step_def onclose_def notify_then_reconnect)

lemma open_event_status:
  assumes "ws s = Some i" "enabled (SockOpen i) s"
  shows "getConnectionStatus (snd (step parse (SockOpen i) s)) = connected"
proof -
  let ?s0 = "s\<lparr>sockets := (sockets s)[i := OPEN], reconnectAttempts := 0, isConnecting := False\<rparr>"
  let ?s1 = "?s0\<lparr>messageQueue := [], log := log ?s0 @ map (WsSend i) (messageQueue s)\<rparr>"
  have "processMessageQueue ?s0 = (None, ?s1)"
    using assms by (intro processMessageQueue_open) simp_all
  then have "step parse (SockOpen i) s = notifyConnectionStatus connected ?s1"
    using assms by (simp add: step_def onopen_alt)
  then show ?thesis
    using assms by (simp add: getConnectionStatus_def ws_readyState_def)
qed

lemma close_event_status:
  assumes "ws s = Some i" "enabled (SockClose i) s"
  shows "getConnectionStatus (snd (step parse (SockClose i) s)) = disconnected"
  using assms
  by (simp add: step_def onclose_def notify_then_reconnect getConnectionStatus_def ws_readyState_def)

text \<open>
  C9, as amended. \<open>getConnectionStatus\<close> returns \<open>connected\<close> exactly when the current socket
  is open. The status of the hook on its first render equals \<open>getConnectionStatus()\<close> of the
  service just constructed. The effect sets the status to \<open>getConnectionStatus()\<close> of the
  service as it is when the effect runs, and registers the callback; the cleanup removes
  it. While the callback is the one registered, an \<open>open\<close> event sets the status to
  \<open>connected\<close>, and a \<open>close\<close> event and an \<open>error\<close> event set it to \<open>disconnected\<close>. After the
  \<open>open\<close> event and after the \<open>close\<close> event of the current socket the status equals
  \<open>getConnectionStatus()\<close>. With no callback registered the socket events leave the status
  as it is.
\<close>

theorem useWebSocket_status:
  "(getConnectionStatus s = connected) = isOpen s \<and>
   view (useWebSocket_first_render blocked) = getConnectionStatus (useWebSocket_first_render blocked) \<and>
   view (useWebSocket_effect k s) = getConnectionStatus s \<and>
   getConnectionStatus (useWebSocket_effect k s) = getConnectionStatus s \<and>
   (connectionStatusCallbacks s = [] \<longrightarrow>
      connectionStatusCallbacks (useWebSocket_effect k s) = [(k, setStatus)] \<and>
      connectionStatusCallbacks (useWebSocket_cleanup k (useWebSocket_effect k s)) = []) \<and>
   (connectionStatusCallbacks s = [(k, setStatus)] \<longrightarrow>
      (enabled (SockOpen i) s \<longrightarrow> view (snd (step parse (SockOpen i) s)) = connected) \<and>
      (enabled (SockClose i) s \<longrightarrow> view (snd (step parse (SockClose i) s)) = disconnected) \<and>
      (enabled (SockError i) s \<longrightarrow> view (snd (step parse (SockError i) s)) = disconnected)) \<and>
   (ws s = Some i \<and> enabled (SockOpen i) s \<longrightarrow>
      getConnectionStatus (snd (step parse (SockOpen i) s)) = connected) \<and>
   (ws s = Some i \<and> enabled (SockClose i) s \<longrightarrow>
      getConnectionStatus (snd (step parse (SockClose i) s)) = disconnected) \<and>
   (connectionStatusCallbacks s = [] \<longrightarrow>
      view (snd (step parse (SockOpen i) s)) = view s \<and>
      view (snd (step parse (SockClose i) s)) = view s \<and>
      view (snd (step parse (SockError i) s)) = view s)"
proof (intro conjI impI)
  show "(getConnectionStatus s = connected) = isOpen s"
    by (simp add: getConnectionStatus_def isOpen_def)
  show "view (useWebSocket_first_render blocked) = getConnectionStatus (useWebSocket_first_render blocked)"
    by (simp add: useWebSocket_first_render_def getConnectionStatus_new view_new)
  show "view (useWebSocket_effect k s) = getConnectionStatus s"
    by (simp add: useWebSocket_effect_def Let_def addConnectionStatusCallback_def getConnectionStatus_def)
  show "getConnectionStatus (useWebSocket_effect k s) = getConnectionStatus s"
    by (simp add: useWebSocket_effect_def Let_def addConnectionStatusCallback_def getConnectionStatus_def)
next
  assume e: "connectionStatusCallbacks s = []"
  then show m: "connectionStatusCallbacks (useWebSocket_effect k s) = [(k, setStatus)]"
    by (simp add: useWebSocket_effect_def Let_def addConnectionStatusCallback_def)
  then show "connectionStatusCallbacks (useWebSocket_cleanup k (useWebSocket_effect k s)) = []"
    by (simp add: useWebSocket_cleanup_def removeConnectionStatusCallback_def)
next
  assume h: "connectionStatusCallbacks s = [(k, setStatus)]"
  show "view (snd (step parse (SockOpen i) s)) = connected" if "enabled (SockOpen i) s"
    using that h by (simp add: open_event_view notify_result processMessageQueue_listeners setStatus_def)
  show "view (snd (step parse (SockClose i) s)) = disconnected" if "enabled (SockClose i) s"
    using that h by (simp add: close_event_view notify_result setStatus_def)
  show "view (snd (step parse (SockError i) s)) = disconnected" if "enabled (SockError i) s"
    using that h by (simp add: step_def onerror_def notify_result setStatus_def)
next
  assume "ws s = Some i \<and> enabled (SockOpen i) s"
  then show "getConnectionStatus (snd (step parse (SockOpen i) s)) = connected"
    using open_event_status [of s i parse] by simp
next
  assume "ws s = Some i \<and> enabled (SockClose i) s"
  then show "getConnectionStatus (snd (step parse (SockClose i) s)) = disconnected"
    using close_event_status [of s i parse] by simp
next
  assume e: "connectionStatusCallbacks s = []"
  show "view (snd (step parse (SockOpen i) s)) = view s"
  proof (cases "enabled (SockOpen i) s")
    case True
    from open_event_view [OF True, of parse] show ?thesis
      using e by (simp add: notify_result processMessageQueue_listeners)
  next
    case False
    from step_disabled [OF this, of parse] show ?thesis by simp
  qed
  show "view (snd (step parse (SockClose i) s)) = view s"
  proof (cases "enabled (SockClose i) s")
    case True
    from close_event_view [OF True, of parse] show ?thesis
      using e by (simp add: notify_result)
  next
    case False
    from step_disabled [OF this, of parse] show ?thesis by simp
  qed
  show "view (snd (step parse (SockError i) s)) = view s"
    using e by (simp add: step_def onerror_def notify_result)
qed

theorem useWebSocket_status_witness:
  "view (useWebSocket_first_render False) = disconnected \<and>
   connectionStatusCallbacks (useWebSocket_first_render False) = [] \<and>
   map fst (connectionStatusCallbacks mounted) = [0] \<and>
   view mounted = disconnected \<and> ws mounted = Some 0 \<and> enabled (SockOpen 0) mounted \<and>
   view (run no_parse [SockOpen 0] mounted) = connected \<and>
   getConnectionStatus (run no_parse [SockOpen 0] mounted) = connected \<and>
   enabled (SockError 0) (run no_parse [SockOpen 0] mounted) \<and>
   view (run no_parse [SockOpen 0, SockError 0] mounted) = disconnected \<and>
   enabled (SockClose 0) (run no_parse [SockOpen 0] mounted) \<and>
   view (run no_parse [SockOpen 0, SockClose 0] mounted) = disconnected \<and>
   getConnectionStatus (run no_parse [SockOpen 0, SockClose 0] mounted) = disconnected \<and>
   view (run no_parse [SockOpen 0, SockClose 0] (useWebSocket_cleanup 0 (run no_parse [SockOpen 0] mounted)))
     = connected"
  using useWebSocket_status [of "useWebSocket_first_render False" False 0 0 no_parse]
    useWebSocket_status [of mounted False 0 0 no_parse]
    useWebSocket_status [of "run no_parse [SockOpen 0] mounted" False 0 0 no_parse]
    useWebSocket_status [of "useWebSocket_cleanup 0 (run no_parse [SockOpen 0] mounted)" False 0 0 no_parse]
  by (simp add: mounted_def useWebSocket_first_render_def useWebSocket_effect_def
      useWebSocket_cleanup_def removeConnectionStatusCallback_def
      getConnectionStatus_def setStatus_def no_parse_def eval_simps)

text \<open>
  The claim as stated fails when the client replaces a socket without a notification. A
  reconnect timer is pending when the socket that \<open>send\<close> created opens; the timer fires
  and \<open>connect\<close> replaces the open socket: the status is still \<open>connected\<close> while
  \<open>getConnectionStatus()\<close> is \<open>disconnected\<close>. The new socket opens, and then the close
  event of the replaced socket arrives: the status is \<open>disconnected\<close> while
  \<open>getConnectionStatus()\<close> is \<open>connected\<close>.
\<close>

theorem useWebSocket_status_counterexample:
  "map fst (connectionStatusCallbacks mounted) = [0] \<and>
   view (run no_parse [SockClose 0, CallSend (ascii ''x''), SockOpen 1, Timer] mounted) = connected \<and>
   getConnectionStatus (run no_parse [SockClose 0, CallSend (ascii ''x''), SockOpen 1, Timer] mounted)
     = disconnected \<and>
   view (run no_parse [SockClose 0, CallSend (ascii ''x''), SockOpen 1, Timer, SockOpen 2, SockClose 1]
           mounted) = disconnected \<and>
   getConnectionStatus
       (run no_parse [SockClose 0, CallSend (ascii ''x''), SockOpen 1, Timer, SockOpen 2, SockClose 1]
           mounted) = connected"
  by (simp add: mounted_def useWebSocket_first_render_def useWebSocket_effect_def
      getConnectionStatus_def setStatus_def no_parse_def eval_simps)

end
